theory Spec2Isabelle
  imports Complex_Main
begin

section \<open>The DBC reader \<open>get_can\<close> of \<open>can_dbc_reader.py\<close>\<close>

text \<open>
  The reader scans a DBC text line by line and fills the dictionary \<open>can_db\<close>:
  arbitration ID \<open>\<rightarrow>\<close> family, genus, frame_bytes and species (signal name \<open>\<rightarrow>\<close> decode
  parameters). Two local variables carry the parse state: \<open>Flag\<close> (a message is open) and
  \<open>current_BO\<close> (its arbitration ID).

  Conventions of the embedding.
  \<^item> A Python \<open>str\<close> is a \<open>string\<close>, one \<open>char\<close> per code point; code points above 255 are
    outside the model.
  \<^item> The input is the list of lines that iterating over the opened file yields; opening
    and closing the file are not modelled.
  \<^item> Every exception is a value \<open>Inl e\<close> of the result type; \<open>Inr\<close> is a normal return.
  \<^item> Built-ins follow Python 3: \<open>str.split\<close>, \<open>str.replace\<close>, \<open>int\<close>, \<open>ast.literal_eval\<close>.
    The interpreter's configurable cap on the number of digits of an integer string is
    not modelled.
  \<^item> Each of the two assignments whose dictionary display starts on the line after the
    \<open>=\<close> is read as one statement.
\<close>

subsection \<open>Exceptions\<close>

datatype exn =
    IndexError          \<comment> \<open>a list subscript out of range\<close>
  | ValueError          \<comment> \<open>\<open>int\<close> or \<open>ast.literal_eval\<close> on a malformed string\<close>
  | SyntaxError         \<comment> \<open>\<open>ast.literal_eval\<close> on a string that does not parse\<close>
  | TypeError           \<comment> \<open>\<open>ast.literal_eval\<close>, for instance on an unhashable set element\<close>
  | MemoryError         \<comment> \<open>\<open>ast.literal_eval\<close>\<close>
  | RecursionError      \<comment> \<open>\<open>ast.literal_eval\<close>\<close>
  | KeyError            \<comment> \<open>\<open>can_db[current_BO]\<close> with a missing key\<close>
  | UnboundLocalError   \<comment> \<open>\<open>current_BO\<close> read before any assignment\<close>

definition and_then :: "exn + 'a \<Rightarrow> ('a \<Rightarrow> exn + 'b) \<Rightarrow> exn + 'b" where
  "and_then r f = (case r of Inl e \<Rightarrow> Inl e | Inr x \<Rightarrow> f x)"

definition item :: "'a list \<Rightarrow> nat \<Rightarrow> exn + 'a" where
  \<comment> \<open>\<open>xs[i]\<close> for a non-negative constant \<open>i\<close>\<close>
  "item xs i = (if i < length xs then Inr (xs ! i) else Inl IndexError)"

subsection \<open>String built-ins\<close>

definition is_space :: "char \<Rightarrow> bool" where
  \<comment> \<open>the code points below 256 for which \<open>str.isspace\<close> holds\<close>
  "is_space c = (c \<in> set [CHR 0x09, CHR 0x0A, CHR 0x0B, CHR 0x0C, CHR 0x0D,
                           CHR 0x1C, CHR 0x1D, CHR 0x1E, CHR 0x1F, CHR 0x20,
                           CHR 0x85, CHR 0xA0])"

fun split_acc :: "string \<Rightarrow> string \<Rightarrow> string list" where
  "split_acc w [] = (if w = [] then [] else [w])"
| "split_acc w (c # cs) =
     (if is_space c then (if w = [] then split_acc [] cs else w # split_acc [] cs)
      else split_acc (w @ [c]) cs)"

definition py_split :: "string \<Rightarrow> string list" where
  \<comment> \<open>\<open>line.split()\<close>: the maximal runs of non-whitespace, in order\<close>
  "py_split line = split_acc [] line"

fun split_on :: "char \<Rightarrow> string \<Rightarrow> string list" where
  \<comment> \<open>\<open>s.split(sep)\<close> for a one-character \<open>sep\<close>; the result is never empty\<close>
  "split_on sep [] = [[]]"
| "split_on sep (c # cs) =
     (if c = sep then [] # split_on sep cs
      else (c # hd (split_on sep cs)) # tl (split_on sep cs))"

definition replace :: "char \<Rightarrow> char \<Rightarrow> string \<Rightarrow> string" where
  \<comment> \<open>\<open>s.replace(a, b)\<close> for one-character \<open>a\<close> and \<open>b\<close>\<close>
  "replace a b s = map (\<lambda>c. if c = a then b else c) s"

definition remove :: "char \<Rightarrow> string \<Rightarrow> string" where
  \<comment> \<open>\<open>s.replace(a, '')\<close> for a one-character \<open>a\<close>\<close>
  "remove a s = filter (\<lambda>c. c \<noteq> a) s"

definition strip :: "string \<Rightarrow> string" where
  "strip s = rev (dropWhile is_space (rev (dropWhile is_space s)))"

subsection \<open>Numbers\<close>

definition is_digit :: "char \<Rightarrow> bool" where
  "is_digit c = (c \<in> set ''0123456789'')"

definition digit_val :: "char \<Rightarrow> nat" where
  "digit_val c = of_char c - 48"

definition nat_of_digits :: "string \<Rightarrow> nat" where
  "nat_of_digits ds = foldl (\<lambda>a c. 10 * a + digit_val c) 0 ds"

definition digit_run :: "string \<Rightarrow> bool" where
  "digit_run g = (g \<noteq> [] \<and> list_all is_digit g)"

definition take_sign :: "string \<Rightarrow> bool \<times> string" where
  \<comment> \<open>an optional leading \<open>+\<close> or \<open>-\<close>; the flag says negative\<close>
  "take_sign t =
     (case t of
        [] \<Rightarrow> (False, t)
      | c # r \<Rightarrow> if c = CHR ''-'' then (True, r)
                 else if c = CHR ''+'' then (False, r) else (False, t))"

definition signed :: "bool \<Rightarrow> nat \<Rightarrow> int" where
  "signed neg n = (if neg then - int n else int n)"

definition py_int :: "string \<Rightarrow> exn + int" where
  \<comment> \<open>\<open>int(s)\<close>: surrounding whitespace stripped, an optional sign, then decimal digits
      in which single underscores may separate digits\<close>
  "py_int s =
     (case take_sign (strip s) of
        (neg, body) \<Rightarrow>
          (let groups = split_on CHR ''_'' body
           in if list_all digit_run groups
              then Inr (signed neg (nat_of_digits (concat groups)))
              else Inl ValueError))"

text \<open>
  The values \<open>ast.literal_eval\<close> returns. \<open>PFloat q\<close> is the \<open>float\<close> that Python obtains
  from a literal whose exact decimal value is \<open>q\<close>; the rounding of \<open>q\<close> to a double is
  not modelled. \<open>POther\<close> stands for the values of every other type (\<open>str\<close>, \<open>bytes\<close>,
  \<open>complex\<close>, tuples, lists, dictionaries, sets, \<open>Ellipsis\<close>), in some encoding.
\<close>

datatype pyval = PNone | PBool bool | PInt int | PFloat rat | POther string

text \<open>
  \<open>ast.literal_eval\<close> is modelled exactly on a fragment of Python's literals: the empty
  string, the constants \<open>None\<close>, \<open>True\<close>, \<open>False\<close>, and an optionally signed decimal integer
  or point float. What it does on any other string (string and container literals,
  complex numbers, other bases, exponents, underscores, names, ...) is a parameter of
  the model, \<open>ext\<close>: the theorems hold for every \<open>ext\<close>, so for the real evaluator. The
  parameter can raise only what \<open>ast.literal_eval\<close> is documented to raise.
\<close>

datatype lit_exn =
  LitValueError | LitSyntaxError | LitTypeError | LitMemoryError | LitRecursionError

fun raised :: "lit_exn \<Rightarrow> exn" where
  "raised LitValueError = ValueError"
| "raised LitSyntaxError = SyntaxError"
| "raised LitTypeError = TypeError"
| "raised LitMemoryError = MemoryError"
| "raised LitRecursionError = RecursionError"

type_synonym literals = "string \<Rightarrow> lit_exn + pyval"

definition fragment_only :: literals where
  \<comment> \<open>a sample parameter for closed instances: nothing outside the fragment is a literal\<close>
  "fragment_only s = Inl LitValueError"

definition dec_integer :: "string \<Rightarrow> bool" where
  \<comment> \<open>a decimal integer literal without underscores: no leading zero unless all zero\<close>
  "dec_integer b = (digit_run b \<and> (list_all (\<lambda>c. c = CHR ''0'') b \<or> hd b \<noteq> CHR ''0''))"

definition point_float :: "string \<Rightarrow> (string \<times> string) option" where
  \<comment> \<open>a float literal \<open>digits.digits\<close>, \<open>digits.\<close> or \<open>.digits\<close> without exponent or
      underscores: its integer and fraction digits\<close>
  "point_float b =
     (case split_on CHR ''.'' b of
        [ip, fp] \<Rightarrow>
          if list_all is_digit ip \<and> list_all is_digit fp \<and> (ip \<noteq> [] \<or> fp \<noteq> [])
          then Some (ip, fp) else None
      | _ \<Rightarrow> None)"

definition float_val :: "string \<Rightarrow> string \<Rightarrow> rat" where
  "float_val ip fp = of_nat (nat_of_digits (ip @ fp)) / 10 ^ length fp"

definition negate :: "bool \<Rightarrow> pyval \<Rightarrow> pyval" where
  "negate neg v =
     (case v of PInt i \<Rightarrow> PInt (if neg then - i else i)
              | PFloat q \<Rightarrow> PFloat (if neg then - q else q)
              | _ \<Rightarrow> v)"

definition literal_eval :: "literals \<Rightarrow> string \<Rightarrow> exn + pyval" where
  \<comment> \<open>\<open>ast.literal_eval(s)\<close>\<close>
  "literal_eval ext s =
     (if s = [] then Inl SyntaxError
      else if s = ''None'' then Inr PNone
      else if s = ''True'' then Inr (PBool True)
      else if s = ''False'' then Inr (PBool False)
      else (case take_sign s of
              (neg, body) \<Rightarrow>
                if dec_integer body then Inr (negate neg (PInt (int (nat_of_digits body))))
                else (case point_float body of
                        Some (ip, fp) \<Rightarrow> Inr (negate neg (PFloat (float_val ip fp)))
                      | None \<Rightarrow> (case ext s of Inl e \<Rightarrow> Inl (raised e)
                                                | Inr v \<Rightarrow> Inr v))))"

subsection \<open>The lookup table\<close>

record signal =
  end_bit :: int
  length' :: int
  factor :: pyval
  offset :: pyval
  minimum :: pyval
  maximum :: pyval
  description :: string
  value' :: pyval

record message =
  family :: string
  genus :: string
  species :: "string \<rightharpoonup> signal"
  frame_bytes :: int

type_synonym database = "int \<rightharpoonup> message"

definition empty_db :: database where
  \<comment> \<open>\<open>can_db = {}\<close>\<close>
  "empty_db = Map.empty"

definition no_species :: "string \<rightharpoonup> signal" where
  \<comment> \<open>\<open>'species': {}\<close>\<close>
  "no_species = Map.empty"

subsection \<open>The loop\<close>

datatype bo = Unbound | NoneVal | Key int

record state =
  can_db :: database
  Flag :: bool
  current_BO :: bo

definition start :: state where
  "start = \<lparr>can_db = empty_db, Flag = False, current_BO = Unbound\<rparr>"

definition open_message :: "state \<Rightarrow> exn + int \<times> message" where
  \<comment> \<open>\<open>can_db[current_BO]\<close>\<close>
  "open_message s =
     (case current_BO s of
        Unbound \<Rightarrow> Inl UnboundLocalError
      | NoneVal \<Rightarrow> Inl KeyError
      | Key k \<Rightarrow> (case can_db s k of None \<Rightarrow> Inl KeyError | Some m \<Rightarrow> Inr (k, m)))"

definition signal_entry :: "literals \<Rightarrow> state \<Rightarrow> string list \<Rightarrow> exn + state" where
  \<comment> \<open>the \<open>SG_\<close> branch, in Python's evaluation order: the three splits, the dictionary
      display left to right, then the subscripts of the assignment target\<close>
  "signal_entry ext s line_array =
     and_then (item line_array 3) (\<lambda>t3.
     let split_range = split_on CHR ''|'' (replace CHR ''@'' CHR ''|'' t3) in
     and_then (item line_array 4) (\<lambda>t4.
     let factor_offset = split_on CHR '','' (remove CHR '')'' (remove CHR ''('' t4)) in
     and_then (item line_array 5) (\<lambda>t5.
     let value_range = split_on CHR ''|'' (remove CHR '']'' (remove CHR ''['' t5)) in
     and_then (and_then (item split_range 0) py_int) (\<lambda>e.
     and_then (and_then (item split_range 1) py_int) (\<lambda>l.
     and_then (and_then (item factor_offset 0) (literal_eval ext)) (\<lambda>f.
     and_then (and_then (item factor_offset 1) (literal_eval ext)) (\<lambda>off.
     and_then (and_then (item value_range 0) (literal_eval ext)) (\<lambda>mn.
     and_then (and_then (item value_range 1) (literal_eval ext)) (\<lambda>mx.
     and_then (item line_array 6) (\<lambda>d.
     and_then (open_message s) (\<lambda>(k, m).
     and_then (item line_array 1) (\<lambda>name.
       Inr (s\<lparr>can_db := (can_db s)(k \<mapsto> m\<lparr>species := (species m)(name \<mapsto>
              \<lparr>end_bit = e, length' = l, factor = f, offset = off,
               minimum = mn, maximum = mx, description = d,
               value' = PNone\<rparr>)\<rparr>)\<rparr>)))))))))))))"

definition message_start :: "state \<Rightarrow> string list \<Rightarrow> exn + state" where
  \<comment> \<open>the \<open>BO_\<close> branch: the dictionary display left to right, then the key of the
      assignment target\<close>
  "message_start s line_array =
     and_then (item line_array 4) (\<lambda>fam.
     and_then (item line_array 2) (\<lambda>t2.
     and_then (and_then (item line_array 3) py_int) (\<lambda>n.
     and_then (and_then (item line_array 1) py_int) (\<lambda>k.
       Inr (s\<lparr>can_db := (can_db s)(k \<mapsto>
                \<lparr>family = fam, genus = butlast t2, species = no_species,
                 frame_bytes = n\<rparr>),
              Flag := True, current_BO := Key k\<rparr>)))))"

definition step :: "literals \<Rightarrow> state \<Rightarrow> string \<Rightarrow> exn + state" where
  \<comment> \<open>one iteration of \<open>for line in dbc_file\<close>\<close>
  "step ext s line =
     (let line_array = py_split line in
      if length line_array = 0 then Inr (s\<lparr>Flag := False, current_BO := NoneVal\<rparr>)
      else if Flag s \<and> line_array ! 0 = ''SG_'' then signal_entry ext s line_array
      else if line_array ! 0 = ''BO_'' then message_start s line_array
      else Inr s)"

fun run :: "literals \<Rightarrow> state \<Rightarrow> string list \<Rightarrow> exn + state" where
  "run ext s [] = Inr s"
| "run ext s (line # rest) = and_then (step ext s line) (\<lambda>s'. run ext s' rest)"

definition get_can :: "literals \<Rightarrow> string list \<Rightarrow> exn + database" where
  "get_can ext dbc_file = and_then (run ext start dbc_file) (\<lambda>s. Inr (can_db s))"

definition lookup_signal :: "exn + database \<Rightarrow> int \<Rightarrow> string \<Rightarrow> signal option" where
  \<comment> \<open>\<open>can_db[k]['species'][name]\<close> on the returned table, \<open>None\<close> where Python raises\<close>
  "lookup_signal r k name =
     (case r of
        Inl e \<Rightarrow> None
      | Inr db \<Rightarrow> (case db k of None \<Rightarrow> None | Some m \<Rightarrow> species m name))"

text \<open>
  The condition under which \<open>can_db[current_BO]\<close> is safe in the \<open>SG_\<close> branch: an open
  message is a key of the table.
\<close>

definition open_ok :: "state \<Rightarrow> bool" where
  "open_ok s =
     (if Flag s then (case current_BO s of Key k \<Rightarrow> can_db s k \<noteq> None | _ \<Rightarrow> False)
      else True)"

text \<open>
  Two states for the examples: after the line \<open>BO_ 100 EngineData: 8 PowertrainECU\<close>, and
  after that line followed by a line for the signal RPM.
\<close>

definition engine_open :: state where
  "engine_open =
     \<lparr>can_db = empty_db(100 \<mapsto>
        \<lparr>family = ''PowertrainECU'', genus = ''EngineData'', species = no_species,
         frame_bytes = 8\<rparr>),
      Flag = True, current_BO = Key 100\<rparr>"

definition engine_with_rpm :: state where
  "engine_with_rpm =
     \<lparr>can_db = empty_db(100 \<mapsto>
        \<lparr>family = ''PowertrainECU'', genus = ''EngineData'',
         species = no_species(''RPM'' \<mapsto>
           \<lparr>end_bit = 15, length' = 16, factor = PFloat (1 / 4), offset = PInt 0,
            minimum = PInt 0, maximum = PFloat (65535 / 4), description = ''d'',
            value' = PNone\<rparr>),
         frame_bytes = 8\<rparr>),
      Flag = True, current_BO = Key 100\<rparr>"

section \<open>Basic facts\<close>

subsection \<open>Sequencing and subscripts\<close>

lemma and_then_Inr [simp]: "and_then (Inr x) f = f x"
  by (simp add: and_then_def)

lemma and_then_Inl [simp]: "and_then (Inl e) f = Inl e"
  by (simp add: and_then_def)

lemma and_then_eq_Inr:
  "and_then r f = Inr y \<longleftrightarrow> (\<exists>x. r = Inr x \<and> f x = Inr y)"
  by (cases r) simp_all

lemma and_then_eq_Inl:
  "and_then r f = Inl e \<longleftrightarrow> r = Inl e \<or> (\<exists>x. r = Inr x \<and> f x = Inl e)"
  by (cases r) simp_all

lemma item_Cons0 [simp]: "item (x # xs) 0 = Inr x"
  by (simp add: item_def)

lemma item_Inl: "item xs i = Inl e \<Longrightarrow> e = IndexError"
  by (simp add: item_def split: if_splits)

lemma py_int_Inl: "py_int t = Inl e \<Longrightarrow> e = ValueError"
  by (simp add: py_int_def Let_def split: prod.splits if_splits)

lemma raised_cases: "raised e \<noteq> KeyError \<and> raised e \<noteq> UnboundLocalError"
  by (cases e) simp_all

lemma literal_eval_Inl:
  "literal_eval ext t = Inl e \<Longrightarrow> e \<noteq> KeyError \<and> e \<noteq> UnboundLocalError"
  using raised_cases
  by (auto simp add: literal_eval_def split: prod.splits if_splits option.splits sum.splits)

lemma step_blank:
  "py_split line = [] \<Longrightarrow>
   step ext s line = Inr (s\<lparr>Flag := False, current_BO := NoneVal\<rparr>)"
  by (simp add: step_def)

lemma step_signal:
  "py_split line = ''SG_'' # ts \<Longrightarrow> Flag s \<Longrightarrow>
   step ext s line = signal_entry ext s (''SG_'' # ts)"
  by (simp add: step_def)

lemma step_message:
  "py_split line = ''BO_'' # ts \<Longrightarrow> step ext s line = message_start s (''BO_'' # ts)"
  by (simp add: step_def)

lemma step_other:
  "py_split line = t # ts \<Longrightarrow> t \<noteq> ''BO_'' \<Longrightarrow> \<not> (Flag s \<and> t = ''SG_'') \<Longrightarrow> step ext s line = Inr s"
  by (auto simp add: step_def Let_def)

lemma step_cases:
  obtains (blank) "py_split line = []"
      "step ext s line = Inr (s\<lparr>Flag := False, current_BO := NoneVal\<rparr>)"
  | (signal) ts where "py_split line = ''SG_'' # ts" "Flag s"
      "step ext s line = signal_entry ext s (''SG_'' # ts)"
  | (message) ts where "py_split line = ''BO_'' # ts"
      "step ext s line = message_start s (''BO_'' # ts)"
  | (other) "step ext s line = Inr s"
proof (cases "py_split line")
  case Nil
  then show ?thesis using blank step_blank by blast
next
  case (Cons t ts)
  show ?thesis
  proof (cases "Flag s \<and> t = ''SG_''")
    case True
    then show ?thesis using Cons signal step_signal by blast
  next
    case False
    show ?thesis
    proof (cases "t = ''BO_''")
      case True
      then show ?thesis using Cons message step_message by blast
    next
      case F2: False
      then show ?thesis using Cons False other step_other by blast
    qed
  qed
qed

lemma message_start_Inr:
  assumes "message_start s la = Inr s'"
  shows "\<exists>fam t2 n k. item la 4 = Inr fam \<and> item la 2 = Inr t2
            \<and> and_then (item la 3) py_int = Inr n \<and> and_then (item la 1) py_int = Inr k
            \<and> s' = s\<lparr>can_db := (can_db s)(k \<mapsto>
                \<lparr>family = fam, genus = butlast t2, species = no_species,
                 frame_bytes = n\<rparr>), Flag := True, current_BO := Key k\<rparr>"
  using assms unfolding message_start_def and_then_eq_Inr by blast

lemma message_start_Inl:
  assumes "message_start s la = Inl e"
  shows "e = IndexError \<or> e = ValueError"
  using assms unfolding message_start_def and_then_eq_Inl
  by (auto dest: item_Inl py_int_Inl)

lemma signal_entry_Inr:
  assumes "signal_entry ext s la = Inr s'"
  shows "\<exists>k m name t3 t4 t5 e l f off mn mx d.
      open_message s = Inr (k, m) \<and> item la 1 = Inr name
      \<and> item la 3 = Inr t3 \<and> item la 4 = Inr t4 \<and> item la 5 = Inr t5
      \<and> item la 6 = Inr d
      \<and> and_then (item (split_on CHR ''|'' (replace CHR ''@'' CHR ''|'' t3)) 0) py_int
            = Inr e
      \<and> and_then (item (split_on CHR ''|'' (replace CHR ''@'' CHR ''|'' t3)) 1) py_int
            = Inr l
      \<and> and_then (item (split_on CHR '','' (remove CHR '')'' (remove CHR ''('' t4))) 0)
            (literal_eval ext) = Inr f
      \<and> and_then (item (split_on CHR '','' (remove CHR '')'' (remove CHR ''('' t4))) 1)
            (literal_eval ext) = Inr off
      \<and> and_then (item (split_on CHR ''|'' (remove CHR '']'' (remove CHR ''['' t5))) 0)
            (literal_eval ext) = Inr mn
      \<and> and_then (item (split_on CHR ''|'' (remove CHR '']'' (remove CHR ''['' t5))) 1)
            (literal_eval ext) = Inr mx
      \<and> s' = s\<lparr>can_db := (can_db s)(k \<mapsto> m\<lparr>species := (species m)(name \<mapsto>
              \<lparr>end_bit = e, length' = l, factor = f, offset = off,
               minimum = mn, maximum = mx, description = d,
               value' = PNone\<rparr>)\<rparr>)\<rparr>"
  using assms unfolding signal_entry_def Let_def
  by (auto simp: and_then_eq_Inr split: prod.splits)

lemma signal_entry_Inl:
  assumes "signal_entry ext s la = Inl e" "open_message s = Inr km"
  shows "e \<noteq> KeyError \<and> e \<noteq> UnboundLocalError"
  using assms unfolding signal_entry_def Let_def 
  by (auto dest!: item_Inl py_int_Inl literal_eval_Inl simp: case_prod_beta and_then_eq_Inl)


lemma run_append: "run ext s (xs @ ys) = and_then (run ext s xs) (\<lambda>s'. run ext s' ys)"
  by (induction xs arbitrary: s) (simp_all add: and_then_def split: sum.splits)

lemma open_ok_start: "open_ok start"
  by (simp add: open_ok_def start_def)

lemma open_ok_message: "open_ok s \<Longrightarrow> open_message s = Inl e \<Longrightarrow> \<not> Flag s"
  by (auto simp: open_ok_def open_message_def split: bo.splits option.splits)

lemma open_ok_step:
  assumes "open_ok s" "step ext s line = Inr s'"
  shows "open_ok s'"
proof (cases rule: step_cases[of line ext s])
  case blank
  then show ?thesis using assms by (auto simp: open_ok_def)
next
  case (signal ts)
  then obtain k m sg and name :: string where
    "open_message s = Inr (k, m)"
    "s' = s\<lparr>can_db := (can_db s)(k \<mapsto> m\<lparr>species := (species m)(name \<mapsto> sg)\<rparr>)\<rparr>"
    using assms signal_entry_Inr by (metis)
  then show ?thesis using assms(1)
    by (auto simp: open_ok_def open_message_def split: bo.splits option.splits)
next
  case (message ts)
  then show ?thesis using assms message_start_Inr[of s "''BO_'' # ts" s']
    by (auto simp: open_ok_def)
next
  case other
  then show ?thesis using assms by simp
qed

lemma open_ok_run: "open_ok s \<Longrightarrow> run ext s ls = Inr s' \<Longrightarrow> open_ok s'"
  by (induction ls arbitrary: s) (auto simp: and_then_eq_Inr dest: open_ok_step)

lemma run_first_failure:
  "run ext s ls = Inl e \<Longrightarrow>
   \<exists>pre line post s1. ls = pre @ line # post \<and> run ext s pre = Inr s1
     \<and> step ext s1 line = Inl e"
proof (induction ls arbitrary: s)
  case Nil
  then show ?case by simp
next
  case (Cons l ls)
  show ?case
  proof (cases "step ext s l")
    case (Inl e')
    then have "e' = e" using Cons.prems by simp
    then have "l # ls = [] @ l # ls \<and> run ext s [] = Inr s \<and> step ext s l = Inl e" using Inl by simp
    then show ?thesis by blast
  next
    case (Inr s2)
    then have "run ext s2 ls = Inl e" using Cons.prems by simp
    then obtain pre line post s1 where h: "ls = pre @ line # post"
        "run ext s2 pre = Inr s1" "step ext s1 line = Inl e"
      using Cons.IH by blast
    then have "l # ls = (l # pre) @ line # post \<and> run ext s (l # pre) = Inr s1
        \<and> step ext s1 line = Inl e"
      using Inr by simp
    then show ?thesis by blast
  qed
qed

lemma run_all_processed:
  assumes "run ext s ls = Inr s'" "ls = pre @ line # post"
  shows "\<exists>s1 s2. run ext s pre = Inr s1 \<and> step ext s1 line = Inr s2 \<and> run ext s2 post = Inr s'"
  using assms by (auto simp: run_append and_then_eq_Inr)

subsection \<open>Subscripts and the two branches\<close>

lemma item_Cons_Suc [simp]: "item (x # xs) (Suc i) = item xs i"
  by (simp add: item_def)

lemma item_Nil [simp]: "item [] i = Inl IndexError"
  by (simp add: item_def)

lemma item_numeral [simp]: "item (x # xs) (numeral v) = item xs (pred_numeral v)"
  by (simp add: item_def numeral_eq_Suc)

lemma item4_Inr:
  "item (t0 # ts) 4 = Inr v \<Longrightarrow> \<exists>t1 t2 t3 rest. ts = t1 # t2 # t3 # v # rest"
  by (cases ts; simp; rename_tac a as; case_tac as; simp; rename_tac b bs; case_tac bs; simp;
      rename_tac c cs; case_tac cs; simp)

lemma message_start_InrE:
  assumes "message_start s la = Inr s'"
  obtains fam t2 n k where "item la 4 = Inr fam" "item la 2 = Inr t2"
     "and_then (item la 3) py_int = Inr n" "and_then (item la 1) py_int = Inr k"
     "s' = s\<lparr>can_db := (can_db s)(k \<mapsto>
                \<lparr>family = fam, genus = butlast t2, species = no_species,
                 frame_bytes = n\<rparr>), Flag := True, current_BO := Key k\<rparr>"
  using assms unfolding message_start_def by (auto simp: and_then_eq_Inr)

lemma message_start_ok:
  assumes "py_int t1 = Inr k" and "py_int t3 = Inr n"
  shows "message_start s (t0 # t1 # t2 # t3 # t4 # rest) =
     Inr (s\<lparr>can_db := (can_db s)(k \<mapsto>
              \<lparr>family = t4, genus = butlast t2, species = no_species, frame_bytes = n\<rparr>),
            Flag := True, current_BO := Key k\<rparr>)"
  using assms by (simp add: message_start_def)

subsection \<open>Splitting, and what \<open>int\<close> and \<open>literal_eval\<close> accept\<close>

lemma split_on_none: "sep \<notin> set b \<Longrightarrow> split_on sep b = [b]"
  by (induction b) auto

lemma split_on_first: "sep \<notin> set a \<Longrightarrow> split_on sep (a @ sep # b) = a # split_on sep b"
  by (induction a) auto

lemma split_on_chars: "c \<in> set b \<Longrightarrow> c = sep \<or> (\<exists>g \<in> set (split_on sep b). c \<in> set g)"
proof (induction b)
  case Nil
  then show ?case by simp
next
  case (Cons x xs)
  have ne: "split_on sep xs \<noteq> []" by (cases xs) auto
  then obtain h t where ht: "split_on sep xs = h # t" by (cases "split_on sep xs") auto
  show ?case
  proof (cases "c = x")
    case True
    then show ?thesis using ht by auto
  next
    case False
    then have "c \<in> set xs" using Cons.prems by simp
    then have "c = sep \<or> (\<exists>g \<in> set (split_on sep xs). c \<in> set g)" using Cons.IH by blast
    then show ?thesis using ht by auto
  qed
qed

lemma replace_none: "a \<notin> set s \<Longrightarrow> replace a b s = s"
  by (induction s) (auto simp: replace_def)

lemma strip_chars: "c \<in> set s \<Longrightarrow> is_space c \<or> c \<in> set (strip s)"
proof -
  assume c: "c \<in> set s"
  have "s = takeWhile is_space s @ dropWhile is_space s" by simp
  then have "c \<in> set (takeWhile is_space s) \<or> c \<in> set (dropWhile is_space s)"
    using c by (metis Un_iff set_append)
  moreover have "c \<in> set (takeWhile is_space s) \<Longrightarrow> is_space c"
    by (meson set_takeWhileD)
  moreover have "c \<in> set (dropWhile is_space s) \<Longrightarrow> is_space c \<or> c \<in> set (strip s)"
  proof -
    assume d: "c \<in> set (dropWhile is_space s)"
    let ?r = "rev (dropWhile is_space s)"
    have "?r = takeWhile is_space ?r @ dropWhile is_space ?r" by simp
    moreover have "c \<in> set ?r" using d by simp
    ultimately have "c \<in> set (takeWhile is_space ?r) \<or> c \<in> set (dropWhile is_space ?r)"
      by (metis Un_iff set_append)
    then show ?thesis
      by (auto simp: strip_def dest: set_takeWhileD)
  qed
  ultimately show ?thesis by blast
qed

lemma take_sign_chars:
  "take_sign t = (neg, body) \<Longrightarrow> c \<in> set t \<Longrightarrow> c = CHR ''-'' \<or> c = CHR ''+'' \<or> c \<in> set body"
  by (cases t) (auto simp: take_sign_def split: if_splits)

lemma py_int_chars:
  assumes "py_int t = Inr v" and "c \<in> set t"
  shows "is_space c \<or> c = CHR ''-'' \<or> c = CHR ''+'' \<or> c = CHR ''_'' \<or> is_digit c"
proof -
  obtain neg body where ts: "take_sign (strip t) = (neg, body)" by (cases "take_sign (strip t)")
  have groups: "list_all digit_run (split_on CHR ''_'' body)"
    using assms(1) ts by (simp add: py_int_def Let_def split: if_splits)
  consider "is_space c" | "c \<in> set (strip t)" using strip_chars assms(2) by blast
  then show ?thesis
  proof cases
    case 1
    then show ?thesis by simp
  next
    case 2
    then consider "c = CHR ''-''" | "c = CHR ''+''" | "c \<in> set body"
      using take_sign_chars [OF ts] by blast
    then show ?thesis
    proof cases
      case 3
      then have "c = CHR ''_'' \<or> (\<exists>g \<in> set (split_on CHR ''_'' body). c \<in> set g)"
        by (rule split_on_chars)
      then show ?thesis using groups by (auto simp: list_all_iff digit_run_def)
    qed simp_all
  qed
qed

lemma py_int_no_separator:
  assumes "py_int t = Inr v"
  shows "CHR ''@'' \<notin> set t \<and> CHR ''|'' \<notin> set t"
proof -
  have "\<not> (is_space c \<or> c = CHR ''-'' \<or> c = CHR ''+'' \<or> c = CHR ''_'' \<or> is_digit c)"
    if "c = CHR ''@'' \<or> c = CHR ''|''" for c
    using that by (auto simp: is_space_def is_digit_def)
  then show ?thesis using py_int_chars [OF assms] by blast
qed

lemma bit_range_split:
  assumes "py_int a = Inr e" and "py_int b = Inr l" and "sep = CHR ''@'' \<or> sep = CHR ''|''"
  shows "split_on CHR ''|'' (replace CHR ''@'' CHR ''|'' (a @ sep # b)) = [a, b]"
proof -
  have na: "CHR ''@'' \<notin> set a" "CHR ''|'' \<notin> set a" using py_int_no_separator [OF assms(1)] by auto
  have nb: "CHR ''@'' \<notin> set b" "CHR ''|'' \<notin> set b" using py_int_no_separator [OF assms(2)] by auto
  have "replace CHR ''@'' CHR ''|'' (a @ sep # b) = a @ CHR ''|'' # b"
    using na nb assms(3) replace_none [of "CHR ''@''" a "CHR ''|''"]
      replace_none [of "CHR ''@''" b "CHR ''|''"]
    by (auto simp: replace_def)
  then show ?thesis using na nb by (simp add: split_on_first split_on_none)
qed

lemma signal_entry_InrE:
  assumes "signal_entry ext s la = Inr s'"
  obtains k m name t3 t4 t5 e l f off mn mx d where
      "open_message s = Inr (k, m)" "item la 1 = Inr name"
      "item la 3 = Inr t3" "item la 4 = Inr t4" "item la 5 = Inr t5" "item la 6 = Inr d"
      "and_then (item (split_on CHR ''|'' (replace CHR ''@'' CHR ''|'' t3)) 0) py_int = Inr e"
      "and_then (item (split_on CHR ''|'' (replace CHR ''@'' CHR ''|'' t3)) 1) py_int = Inr l"
      "and_then (item (split_on CHR '','' (remove CHR '')'' (remove CHR ''('' t4))) 0)
            (literal_eval ext) = Inr f"
      "and_then (item (split_on CHR '','' (remove CHR '')'' (remove CHR ''('' t4))) 1)
            (literal_eval ext) = Inr off"
      "and_then (item (split_on CHR ''|'' (remove CHR '']'' (remove CHR ''['' t5))) 0)
            (literal_eval ext) = Inr mn"
      "and_then (item (split_on CHR ''|'' (remove CHR '']'' (remove CHR ''['' t5))) 1)
            (literal_eval ext) = Inr mx"
      "s' = s\<lparr>can_db := (can_db s)(k \<mapsto> m\<lparr>species := (species m)(name \<mapsto>
              \<lparr>end_bit = e, length' = l, factor = f, offset = off,
               minimum = mn, maximum = mx, description = d,
               value' = PNone\<rparr>)\<rparr>)\<rparr>"
  using signal_entry_Inr [OF assms] by blast

lemma open_message_Inr:
  "open_message s = Inr (k, m) \<longleftrightarrow> current_BO s = Key k \<and> can_db s k = Some m"
  by (auto simp: open_message_def split: bo.splits option.splits)

lemma signal_entry_ok:
  assumes "split_on CHR ''|'' (replace CHR ''@'' CHR ''|'' t3) = a # b # r1"
      and "py_int a = Inr e" and "py_int b = Inr l"
      and "split_on CHR '','' (remove CHR '')'' (remove CHR ''('' t4)) = fo # oo # r2"
      and "literal_eval ext fo = Inr f" and "literal_eval ext oo = Inr off"
      and "split_on CHR ''|'' (remove CHR '']'' (remove CHR ''['' t5)) = v0 # v1 # r3"
      and "literal_eval ext v0 = Inr mn" and "literal_eval ext v1 = Inr mx"
      and "current_BO s = Key k" and "can_db s k = Some m"
  shows "signal_entry ext s (t0 # name # t2 # t3 # t4 # t5 # d # rest) =
     Inr (s\<lparr>can_db := (can_db s)(k \<mapsto> m\<lparr>species := (species m)(name \<mapsto>
              \<lparr>end_bit = e, length' = l, factor = f, offset = off,
               minimum = mn, maximum = mx, description = d,
               value' = PNone\<rparr>)\<rparr>)\<rparr>)"
  using assms by (simp add: signal_entry_def open_message_def)

lemma digit_not_special:
  "is_digit c \<Longrightarrow> \<not> is_space c \<and> c \<noteq> CHR ''-'' \<and> c \<noteq> CHR ''+'' \<and> c \<noteq> CHR ''_''
      \<and> c \<noteq> CHR ''.'' \<and> c \<noteq> CHR ''N'' \<and> c \<noteq> CHR ''T'' \<and> c \<noteq> CHR ''F''"
  by (auto simp: is_digit_def is_space_def)

lemma strip_id: "\<forall>c \<in> set s. \<not> is_space c \<Longrightarrow> strip s = s"
proof -
  assume a: "\<forall>c \<in> set s. \<not> is_space c"
  have d: "dropWhile is_space t = t" if "\<forall>c \<in> set t. \<not> is_space c" for t
    using that by (cases t) auto
  have "dropWhile is_space (rev s) = rev s" using a by (intro d) simp
  then show ?thesis using a by (simp add: strip_def d)
qed

lemma take_sign_digit: "is_digit c \<or> c = CHR ''.'' \<Longrightarrow> take_sign (c # r) = (False, c # r)"
  by (auto simp: take_sign_def dest: digit_not_special)

lemma py_int_digits:
  assumes "digit_run ds"
  shows "py_int ds = Inr (int (nat_of_digits ds))"
    and "py_int (CHR ''-'' # ds) = Inr (- int (nat_of_digits ds))"
proof -
  obtain c r where ds: "ds = c # r" using assms by (cases ds) (auto simp: digit_run_def)
  have dig: "\<forall>x \<in> set ds. is_digit x" using assms by (simp add: digit_run_def list_all_iff)
  then have nsp: "\<forall>x \<in> set ds. \<not> is_space x" using digit_not_special by blast
  have c: "is_digit c" using dig ds by simp
  have us: "CHR ''_'' \<notin> set ds" using dig digit_not_special by blast
  have grp: "split_on CHR ''_'' ds = [ds]" using us by (rule split_on_none)
  have s1: "strip ds = ds" using nsp by (rule strip_id)
  have "\<not> is_space CHR ''-''" by (simp add: is_space_def)
  then have s2: "strip (CHR ''-'' # ds) = CHR ''-'' # ds" using nsp by (intro strip_id) simp
  have t1: "take_sign ds = (False, ds)" unfolding ds using c by (simp add: take_sign_digit)
  have t2: "take_sign (CHR ''-'' # ds) = (True, ds)" by (simp add: take_sign_def)
  show "py_int ds = Inr (int (nat_of_digits ds))"
    using assms by (simp add: py_int_def s1 t1 grp signed_def)
  show "py_int (CHR ''-'' # ds) = Inr (- int (nat_of_digits ds))"
    using assms by (simp add: py_int_def s2 t2 grp signed_def)
qed

lemma literal_eval_integer:
  assumes "dec_integer ds"
  shows "literal_eval ext ds = Inr (PInt (int (nat_of_digits ds)))"
    and "literal_eval ext (CHR ''-'' # ds) = Inr (PInt (- int (nat_of_digits ds)))"
proof -
  obtain c r where ds: "ds = c # r"
    using assms by (cases ds) (auto simp: dec_integer_def digit_run_def)
  have c: "is_digit c" using assms ds by (simp add: dec_integer_def digit_run_def)
  have t1: "take_sign ds = (False, ds)" unfolding ds using c by (simp add: take_sign_digit)
  have t2: "take_sign (CHR ''-'' # ds) = (True, ds)" by (simp add: take_sign_def)
  have ne: "ds \<noteq> ''None''" "ds \<noteq> ''True''" "ds \<noteq> ''False''" "ds \<noteq> []"
    using c ds digit_not_special by auto
  show "literal_eval ext ds = Inr (PInt (int (nat_of_digits ds)))"
    using assms ne by (simp add: literal_eval_def t1 negate_def)
  show "literal_eval ext (CHR ''-'' # ds) = Inr (PInt (- int (nat_of_digits ds)))"
    using assms by (simp add: literal_eval_def t2 negate_def)
qed

lemma literal_eval_point_float:
  assumes "list_all is_digit ip" and "digit_run fp"
  shows "literal_eval ext (ip @ CHR ''.'' # fp) = Inr (PFloat (float_val ip fp))"
    and "literal_eval ext (CHR ''-'' # ip @ CHR ''.'' # fp) = Inr (PFloat (- float_val ip fp))"
proof -
  let ?b = "ip @ CHR ''.'' # fp"
  have di: "\<forall>x \<in> set ip. is_digit x" using assms(1) by (simp add: list_all_iff)
  have df: "\<forall>x \<in> set fp. is_digit x" "fp \<noteq> []"
    using assms(2) by (simp_all add: digit_run_def list_all_iff)
  have ni: "CHR ''.'' \<notin> set ip" using di digit_not_special by blast
  have nf: "CHR ''.'' \<notin> set fp" using df digit_not_special by blast
  have sp: "split_on CHR ''.'' ?b = [ip, fp]"
    using ni nf by (simp add: split_on_first split_on_none)
  have pf: "point_float ?b = Some (ip, fp)"
    using assms df by (simp add: point_float_def sp digit_run_def)
  have "\<not> is_digit CHR ''.''" by (simp add: is_digit_def)
  then have nd: "\<not> dec_integer ?b" by (auto simp: dec_integer_def digit_run_def)
  obtain c r where b: "?b = c # r" "is_digit c \<or> c = CHR ''.''"
    using di by (cases ip) auto
  have t1: "take_sign ?b = (False, ?b)" unfolding b(1) using b(2) by (rule take_sign_digit)
  have t2: "take_sign (CHR ''-'' # ?b) = (True, ?b)" by (simp add: take_sign_def)
  have "c \<noteq> CHR ''N'' \<and> c \<noteq> CHR ''T'' \<and> c \<noteq> CHR ''F''"
    using b(2) digit_not_special by auto
  then have ne: "?b \<noteq> ''None''" "?b \<noteq> ''True''" "?b \<noteq> ''False''" "?b \<noteq> []"
    unfolding b(1) by auto
  show "literal_eval ext ?b = Inr (PFloat (float_val ip fp))"
    using ne nd pf by (simp add: literal_eval_def t1 negate_def del: append_Cons append_Nil)
  have "literal_eval ext (CHR ''-'' # ?b) = Inr (PFloat (- float_val ip fp))"
    using nd pf by (simp add: literal_eval_def t2 negate_def)
  then show "literal_eval ext (CHR ''-'' # ip @ CHR ''.'' # fp) = Inr (PFloat (- float_val ip fp))"
    by simp
qed

lemma message_start_bad_int:
  assumes "py_int t1 = Inl ValueError \<or> py_int t3 = Inl ValueError"
  shows "message_start s (t0 # t1 # t2 # t3 # t4 # rest) = Inl ValueError"
  using assms by (cases "py_int t3") (auto simp: message_start_def dest: py_int_Inl)

subsection \<open>Evaluating concrete lines\<close>

lemmas int_eval = py_int_def strip_def is_space_def take_sign_def digit_run_def is_digit_def
  nat_of_digits_def digit_val_def signed_def

lemmas lit_eval = literal_eval_def take_sign_def dec_integer_def digit_run_def is_digit_def
  nat_of_digits_def digit_val_def point_float_def float_val_def negate_def

lemma split_engine:
  "py_split ''BO_ 100 EngineData: 8 PowertrainECU'' =
     [''BO_'', ''100'', ''EngineData:'', ''8'', ''PowertrainECU'']"
  by (simp add: py_split_def is_space_def)

lemma split_rpm:
  "py_split '' SG_ RPM : 15|16 (0.25,0) [0|16383.75] \"engine speed\"'' =
     [''SG_'', ''RPM'', '':'', ''15|16'', ''(0.25,0)'', ''[0|16383.75]'', ''\"engine'',
      ''speed\"'']"
  by (simp add: py_split_def is_space_def)

lemma split_temp:
  "py_split '' SG_ Temp : 7|8 (1,-40) [-40|215] \"coolant temp\"'' =
     [''SG_'', ''Temp'', '':'', ''7|8'', ''(1,-40)'', ''[-40|215]'', ''\"coolant'',
      ''temp\"'']"
  by (simp add: py_split_def is_space_def)

lemma split_empty: "py_split '''' = []"
  by (simp add: py_split_def)

lemma split_brake:
  "py_split ''BO_ 200 BrakeData: 4 ChassisECU'' =
     [''BO_'', ''200'', ''BrakeData:'', ''4'', ''ChassisECU'']"
  by (simp add: py_split_def is_space_def)

lemma split_pressure:
  "py_split '' SG_ Pressure : 31|16 (0.1,0) [0|6553.5] \"brake pressure\"'' =
     [''SG_'', ''Pressure'', '':'', ''31|16'', ''(0.1,0)'', ''[0|6553.5]'', ''\"brake'',
      ''pressure\"'']"
  by (simp add: py_split_def is_space_def)

lemma step_engine:
  "step ext s ''BO_ 100 EngineData: 8 PowertrainECU'' =
     Inr (s\<lparr>can_db := (can_db s)(100 \<mapsto>
              \<lparr>family = ''PowertrainECU'', genus = ''EngineData'', species = no_species,
               frame_bytes = 8\<rparr>),
            Flag := True, current_BO := Key 100\<rparr>)"
proof -
  have a: "py_int ''100'' = Inr 100" by (simp add: int_eval)
  have b: "py_int ''8'' = Inr 8" by (simp add: int_eval)
  show ?thesis
    using step_message [OF split_engine, of ext s]
      message_start_ok [OF a b, of s "''BO_''" "''EngineData:''" "''PowertrainECU''" "[]"]
    by simp
qed

lemma step_brake:
  "step ext s ''BO_ 200 BrakeData: 4 ChassisECU'' =
     Inr (s\<lparr>can_db := (can_db s)(200 \<mapsto>
              \<lparr>family = ''ChassisECU'', genus = ''BrakeData'', species = no_species,
               frame_bytes = 4\<rparr>),
            Flag := True, current_BO := Key 200\<rparr>)"
proof -
  have a: "py_int ''200'' = Inr 200" by (simp add: int_eval)
  have b: "py_int ''4'' = Inr 4" by (simp add: int_eval)
  show ?thesis
    using step_message [OF split_brake, of ext s]
      message_start_ok [OF a b, of s "''BO_''" "''BrakeData:''" "''ChassisECU''" "[]"]
    by simp
qed

lemma step_rpm:
  assumes "Flag s" and "current_BO s = Key k" and "can_db s k = Some m"
  shows "step ext s '' SG_ RPM : 15|16 (0.25,0) [0|16383.75] \"engine speed\"'' =
     Inr (s\<lparr>can_db := (can_db s)(k \<mapsto> m\<lparr>species := (species m)(''RPM'' \<mapsto>
              \<lparr>end_bit = 15, length' = 16, factor = PFloat (1 / 4), offset = PInt 0,
               minimum = PInt 0, maximum = PFloat (65535 / 4), description = ''\"engine'',
               value' = PNone\<rparr>)\<rparr>)\<rparr>)"
proof -
  have 1: "split_on CHR ''|'' (replace CHR ''@'' CHR ''|'' ''15|16'') = ''15'' # ''16'' # []"
    by (simp add: replace_def)
  have 2: "py_int ''15'' = Inr 15" by (simp add: int_eval)
  have 3: "py_int ''16'' = Inr 16" by (simp add: int_eval)
  have 4: "split_on CHR '','' (remove CHR '')'' (remove CHR ''('' ''(0.25,0)''))
             = ''0.25'' # ''0'' # []"
    by (simp add: remove_def)
  have 5: "literal_eval ext ''0.25'' = Inr (PFloat (1 / 4))" by (simp add: lit_eval)
  have 6: "literal_eval ext ''0'' = Inr (PInt 0)" by (simp add: lit_eval)
  have 7: "split_on CHR ''|'' (remove CHR '']'' (remove CHR ''['' ''[0|16383.75]''))
             = ''0'' # ''16383.75'' # []"
    by (simp add: remove_def)
  have 8: "literal_eval ext ''16383.75'' = Inr (PFloat (65535 / 4))" by (simp add: lit_eval)
  show ?thesis
    unfolding step_signal [OF split_rpm assms(1)]
    by (rule signal_entry_ok [OF 1 2 3 4 5 6 7 6 8 assms(2) assms(3)])
qed

lemma step_temp:
  assumes "Flag s" and "current_BO s = Key k" and "can_db s k = Some m"
  shows "step ext s '' SG_ Temp : 7|8 (1,-40) [-40|215] \"coolant temp\"'' =
     Inr (s\<lparr>can_db := (can_db s)(k \<mapsto> m\<lparr>species := (species m)(''Temp'' \<mapsto>
              \<lparr>end_bit = 7, length' = 8, factor = PInt 1, offset = PInt (- 40),
               minimum = PInt (- 40), maximum = PInt 215, description = ''\"coolant'',
               value' = PNone\<rparr>)\<rparr>)\<rparr>)"
proof -
  have 1: "split_on CHR ''|'' (replace CHR ''@'' CHR ''|'' ''7|8'') = ''7'' # ''8'' # []"
    by (simp add: replace_def)
  have 2: "py_int ''7'' = Inr 7" by (simp add: int_eval)
  have 3: "py_int ''8'' = Inr 8" by (simp add: int_eval)
  have 4: "split_on CHR '','' (remove CHR '')'' (remove CHR ''('' ''(1,-40)''))
             = ''1'' # ''-40'' # []"
    by (simp add: remove_def)
  have 5: "literal_eval ext ''1'' = Inr (PInt 1)" by (simp add: lit_eval)
  have 6: "literal_eval ext ''-40'' = Inr (PInt (- 40))" by (simp add: lit_eval)
  have 7: "split_on CHR ''|'' (remove CHR '']'' (remove CHR ''['' ''[-40|215]''))
             = ''-40'' # ''215'' # []"
    by (simp add: remove_def)
  have 8: "literal_eval ext ''215'' = Inr (PInt 215)" by (simp add: lit_eval)
  show ?thesis
    unfolding step_signal [OF split_temp assms(1)]
    by (rule signal_entry_ok [OF 1 2 3 4 5 6 7 6 8 assms(2) assms(3)])
qed

lemma step_pressure:
  assumes "Flag s" and "current_BO s = Key k" and "can_db s k = Some m"
  shows "step ext s '' SG_ Pressure : 31|16 (0.1,0) [0|6553.5] \"brake pressure\"'' =
     Inr (s\<lparr>can_db := (can_db s)(k \<mapsto> m\<lparr>species := (species m)(''Pressure'' \<mapsto>
              \<lparr>end_bit = 31, length' = 16, factor = PFloat (1 / 10), offset = PInt 0,
               minimum = PInt 0, maximum = PFloat (13107 / 2), description = ''\"brake'',
               value' = PNone\<rparr>)\<rparr>)\<rparr>)"
proof -
  have 1: "split_on CHR ''|'' (replace CHR ''@'' CHR ''|'' ''31|16'') = ''31'' # ''16'' # []"
    by (simp add: replace_def)
  have 2: "py_int ''31'' = Inr 31" by (simp add: int_eval)
  have 3: "py_int ''16'' = Inr 16" by (simp add: int_eval)
  have 4: "split_on CHR '','' (remove CHR '')'' (remove CHR ''('' ''(0.1,0)''))
             = ''0.1'' # ''0'' # []"
    by (simp add: remove_def)
  have 5: "literal_eval ext ''0.1'' = Inr (PFloat (1 / 10))" by (simp add: lit_eval)
  have 6: "literal_eval ext ''0'' = Inr (PInt 0)" by (simp add: lit_eval)
  have 7: "split_on CHR ''|'' (remove CHR '']'' (remove CHR ''['' ''[0|6553.5]''))
             = ''0'' # ''6553.5'' # []"
    by (simp add: remove_def)
  have 8: "literal_eval ext ''6553.5'' = Inr (PFloat (13107 / 2))" by (simp add: lit_eval)
  show ?thesis
    unfolding step_signal [OF split_pressure assms(1)]
    by (rule signal_entry_ok [OF 1 2 3 4 5 6 7 6 8 assms(2) assms(3)])
qed

lemma scenario_run:
  "run ext start
     [''BO_ 100 EngineData: 8 PowertrainECU'',
      '' SG_ RPM : 15|16 (0.25,0) [0|16383.75] \"engine speed\"'',
      '' SG_ Temp : 7|8 (1,-40) [-40|215] \"coolant temp\"'',
      '''',
      ''BO_ 200 BrakeData: 4 ChassisECU'',
      '' SG_ Pressure : 31|16 (0.1,0) [0|6553.5] \"brake pressure\"''] =
   Inr \<lparr>can_db = empty_db
          (100 \<mapsto> \<lparr>family = ''PowertrainECU'', genus = ''EngineData'',
              species = no_species
                (''RPM'' \<mapsto> \<lparr>end_bit = 15, length' = 16, factor = PFloat (1 / 4),
                    offset = PInt 0, minimum = PInt 0, maximum = PFloat (65535 / 4),
                    description = ''\"engine'', value' = PNone\<rparr>,
                 ''Temp'' \<mapsto> \<lparr>end_bit = 7, length' = 8, factor = PInt 1,
                    offset = PInt (- 40), minimum = PInt (- 40), maximum = PInt 215,
                    description = ''\"coolant'', value' = PNone\<rparr>),
              frame_bytes = 8\<rparr>,
           200 \<mapsto> \<lparr>family = ''ChassisECU'', genus = ''BrakeData'',
              species = no_species
                (''Pressure'' \<mapsto> \<lparr>end_bit = 31, length' = 16, factor = PFloat (1 / 10),
                    offset = PInt 0, minimum = PInt 0, maximum = PFloat (13107 / 2),
                    description = ''\"brake'', value' = PNone\<rparr>),
              frame_bytes = 4\<rparr>),
        Flag = True, current_BO = Key 200\<rparr>"
  by (simp add: step_engine step_rpm step_temp step_blank split_empty step_brake step_pressure
        start_def)

lemma message_start_processed:
  assumes "py_split line = ''BO_'' # ts" and "step ext s line = Inr s'"
  obtains t1 t2 t3 t4 rest k n where "ts = t1 # t2 # t3 # t4 # rest"
    "py_int t1 = Inr k" "py_int t3 = Inr n"
    "s' = s\<lparr>can_db := (can_db s)(k \<mapsto>
              \<lparr>family = t4, genus = butlast t2, species = no_species, frame_bytes = n\<rparr>),
            Flag := True, current_BO := Key k\<rparr>"
proof -
  have ms: "message_start s (''BO_'' # ts) = Inr s'"
    using assms by (simp add: step_message)
  then obtain fam t2' n k where h: "item (''BO_'' # ts) 4 = Inr fam"
      "item (''BO_'' # ts) 2 = Inr t2'"
      "and_then (item (''BO_'' # ts) 3) py_int = Inr n"
      "and_then (item (''BO_'' # ts) 1) py_int = Inr k"
      "s' = s\<lparr>can_db := (can_db s)(k \<mapsto>
                \<lparr>family = fam, genus = butlast t2', species = no_species,
                 frame_bytes = n\<rparr>), Flag := True, current_BO := Key k\<rparr>"
    by (rule message_start_InrE)
  from h(1) obtain t1 t2 t3 rest where ts: "ts = t1 # t2 # t3 # fam # rest"
    using item4_Inr [OF h(1)] by blast
  have p1: "py_int t1 = Inr k" using h(4) unfolding ts by simp
  have p3: "py_int t3 = Inr n" using h(3) unfolding ts by simp
  have "t2' = t2" using h(2) unfolding ts by simp
  then have s': "s' = s\<lparr>can_db := (can_db s)(k \<mapsto>
              \<lparr>family = fam, genus = butlast t2, species = no_species, frame_bytes = n\<rparr>),
            Flag := True, current_BO := Key k\<rparr>"
    using h(5) by (simp only:)
  show ?thesis using that [OF ts p1 p3 s'] .
qed

lemma step_dom:
  assumes "step ext s line = Inr s'"
  shows "dom (can_db s') = dom (can_db s) \<union>
           {k. \<exists>ts. py_split line = ''BO_'' # ts \<and> and_then (item ts 0) py_int = Inr k}"
proof (cases "py_split line")
  case Nil
  then show ?thesis using assms by (auto simp: step_blank)
next
  case (Cons t ts)
  show ?thesis
  proof (cases "t = ''BO_''")
    case True
    then have sp: "py_split line = ''BO_'' # ts" using Cons by simp
    obtain t1 t2 t3 t4 rest k n where h: "ts = t1 # t2 # t3 # t4 # rest"
      "py_int t1 = Inr k" "py_int t3 = Inr n"
      "s' = s\<lparr>can_db := (can_db s)(k \<mapsto>
              \<lparr>family = t4, genus = butlast t2, species = no_species, frame_bytes = n\<rparr>),
            Flag := True, current_BO := Key k\<rparr>"
      using sp assms by (rule message_start_processed)
    have "{k. \<exists>ts. py_split line = ''BO_'' # ts \<and> and_then (item ts 0) py_int = Inr k} = {k}"
      using sp h(1) h(2) by auto
    then show ?thesis unfolding h(4) by auto
  next
    case False
    then have none: "{k. \<exists>ts. py_split line = ''BO_'' # ts \<and> and_then (item ts 0) py_int = Inr k} = {}"
      using Cons by auto
    show ?thesis
    proof (cases "Flag s \<and> t = ''SG_''")
      case True
      then have "signal_entry ext s (''SG_'' # ts) = Inr s'"
        using step_signal [of line ts s ext] Cons assms by simp
      then obtain k m name sg where "open_message s = Inr (k, m)"
        "s' = s\<lparr>can_db := (can_db s)(k \<mapsto> m\<lparr>species := (species m)(name \<mapsto> sg)\<rparr>)\<rparr>"
        using signal_entry_Inr by blast
      then show ?thesis unfolding none by (auto simp: open_message_Inr)
    next
      case F2: False
      then have "step ext s line = Inr s" using Cons False by (auto simp: step_def Let_def)
      then have "s' = s" using assms by simp
      then show ?thesis unfolding none by simp
    qed
  qed
qed

lemma run_dom:
  "run ext s ls = Inr s' \<Longrightarrow>
   dom (can_db s') = dom (can_db s) \<union>
     {k. \<exists>line ts. line \<in> set ls \<and> py_split line = ''BO_'' # ts
            \<and> and_then (item ts 0) py_int = Inr k}"
proof (induction ls arbitrary: s)
  case Nil
  then show ?case by simp
next
  case (Cons l ls)
  then obtain s1 where s1: "step ext s l = Inr s1" "run ext s1 ls = Inr s'"
    by (auto simp: and_then_eq_Inr)
  show ?case unfolding Cons.IH [OF s1(2)] step_dom [OF s1(1)] by auto
qed

lemma engine_open_fields:
  "Flag engine_open" "current_BO engine_open = Key 100"
  "can_db engine_open 100 =
     Some \<lparr>family = ''PowertrainECU'', genus = ''EngineData'', species = no_species,
           frame_bytes = 8\<rparr>"
  by (simp_all add: engine_open_def)

lemma step_engine_start:
  "step ext start ''BO_ 100 EngineData: 8 PowertrainECU'' = Inr engine_open"
  by (simp add: step_engine engine_open_def start_def)

section \<open>The claims\<close>

subsection \<open>More concrete lines\<close>

lemma split_signal_line:
  "py_split ''SG_ RPM : 15|16 (0.25,0) [0|16383.75] x'' =
     [''SG_'', ''RPM'', '':'', ''15|16'', ''(0.25,0)'', ''[0|16383.75]'', ''x'']"
  by (simp add: py_split_def is_space_def)

lemma split_blank_line: "py_split '' '' = []"
  by (simp add: py_split_def is_space_def)

lemma split_version_line: "py_split ''VERSION x'' = [''VERSION'', ''x'']"
  by (simp add: py_split_def is_space_def)

lemma split_short_line: "py_split ''BO_ 100'' = [''BO_'', ''100'']"
  by (simp add: py_split_def is_space_def)

lemma split_bad_id_line:
  "py_split ''BO_ x1 EngineData: 8 PowertrainECU'' =
     [''BO_'', ''x1'', ''EngineData:'', ''8'', ''PowertrainECU'']"
  by (simp add: py_split_def is_space_def)

lemma split_reuse_line:
  "py_split ''BO_ 100 BrakeData: 4 ChassisECU'' =
     [''BO_'', ''100'', ''BrakeData:'', ''4'', ''ChassisECU'']"
  by (simp add: py_split_def is_space_def)

lemma split_at_line:
  "py_split ''SG_ X : 12@4 (1,0) [0|1] d'' =
     [''SG_'', ''X'', '':'', ''12@4'', ''(1,0)'', ''[0|1]'', ''d'']"
  by (simp add: py_split_def is_space_def)

lemma split_bar_line:
  "py_split ''SG_ X : 12|4 (1,0) [0|1] d'' =
     [''SG_'', ''X'', '':'', ''12|4'', ''(1,0)'', ''[0|1]'', ''d'']"
  by (simp add: py_split_def is_space_def)

lemma split_scaled_line:
  "py_split ''SG_ T : 7|8 (0.1,-40) [-40|215] d'' =
     [''SG_'', ''T'', '':'', ''7|8'', ''(0.1,-40)'', ''[-40|215]'', ''d'']"
  by (simp add: py_split_def is_space_def)

lemma split_none_line:
  "py_split ''SG_ X : 12|4 (None,0) [0|1] d'' =
     [''SG_'', ''X'', '':'', ''12|4'', ''(None,0)'', ''[0|1]'', ''d'']"
  by (simp add: py_split_def is_space_def)

lemma split_lone_signal: "py_split ''SG_ X'' = [''SG_'', ''X'']"
  by (simp add: py_split_def is_space_def)

lemma step_bit_range:
  assumes "py_split line = [''SG_'', ''X'', '':'', t3, ''(1,0)'', ''[0|1]'', ''d'']"
      and "split_on CHR ''|'' (replace CHR ''@'' CHR ''|'' t3) = [''12'', ''4'']"
      and "Flag s" and "current_BO s = Key k" and "can_db s k = Some m"
  shows "step ext s line =
     Inr (s\<lparr>can_db := (can_db s)(k \<mapsto> m\<lparr>species := (species m)(''X'' \<mapsto>
              \<lparr>end_bit = 12, length' = 4, factor = PInt 1, offset = PInt 0,
               minimum = PInt 0, maximum = PInt 1, description = ''d'',
               value' = PNone\<rparr>)\<rparr>)\<rparr>)"
proof -
  have 2: "py_int ''12'' = Inr 12" by (simp add: int_eval)
  have 3: "py_int ''4'' = Inr 4" by (simp add: int_eval)
  have 4: "split_on CHR '','' (remove CHR '')'' (remove CHR ''('' ''(1,0)'')) = ''1'' # ''0'' # []"
    by (simp add: remove_def)
  have 5: "literal_eval ext ''1'' = Inr (PInt 1)" by (simp add: lit_eval)
  have 6: "literal_eval ext ''0'' = Inr (PInt 0)" by (simp add: lit_eval)
  have 7: "split_on CHR ''|'' (remove CHR '']'' (remove CHR ''['' ''[0|1]'')) = ''0'' # ''1'' # []"
    by (simp add: remove_def)
  show ?thesis
    unfolding step_signal [OF assms(1) assms(3)]
    by (rule signal_entry_ok [OF assms(2) 2 3 4 5 6 7 6 5 assms(4) assms(5)])
qed

lemma step_scaled:
  assumes "Flag s" and "current_BO s = Key k" and "can_db s k = Some m"
  shows "step ext s ''SG_ T : 7|8 (0.1,-40) [-40|215] d'' =
     Inr (s\<lparr>can_db := (can_db s)(k \<mapsto> m\<lparr>species := (species m)(''T'' \<mapsto>
              \<lparr>end_bit = 7, length' = 8, factor = PFloat (1 / 10), offset = PInt (- 40),
               minimum = PInt (- 40), maximum = PInt 215, description = ''d'',
               value' = PNone\<rparr>)\<rparr>)\<rparr>)"
proof -
  have 1: "split_on CHR ''|'' (replace CHR ''@'' CHR ''|'' ''7|8'') = ''7'' # ''8'' # []"
    by (simp add: replace_def)
  have 2: "py_int ''7'' = Inr 7" by (simp add: int_eval)
  have 3: "py_int ''8'' = Inr 8" by (simp add: int_eval)
  have 4: "split_on CHR '','' (remove CHR '')'' (remove CHR ''('' ''(0.1,-40)''))
             = ''0.1'' # ''-40'' # []"
    by (simp add: remove_def)
  have 5: "literal_eval ext ''0.1'' = Inr (PFloat (1 / 10))" by (simp add: lit_eval)
  have 6: "literal_eval ext ''-40'' = Inr (PInt (- 40))" by (simp add: lit_eval)
  have 7: "split_on CHR ''|'' (remove CHR '']'' (remove CHR ''['' ''[-40|215]''))
             = ''-40'' # ''215'' # []"
    by (simp add: remove_def)
  have 8: "literal_eval ext ''215'' = Inr (PInt 215)" by (simp add: lit_eval)
  show ?thesis
    unfolding step_signal [OF split_scaled_line assms(1)]
    by (rule signal_entry_ok [OF 1 2 3 4 5 6 7 6 8 assms(2) assms(3)])
qed

lemma step_none_factor:
  assumes "Flag s" and "current_BO s = Key k" and "can_db s k = Some m"
  shows "step ext s ''SG_ X : 12|4 (None,0) [0|1] d'' =
     Inr (s\<lparr>can_db := (can_db s)(k \<mapsto> m\<lparr>species := (species m)(''X'' \<mapsto>
              \<lparr>end_bit = 12, length' = 4, factor = PNone, offset = PInt 0,
               minimum = PInt 0, maximum = PInt 1, description = ''d'',
               value' = PNone\<rparr>)\<rparr>)\<rparr>)"
proof -
  have 1: "split_on CHR ''|'' (replace CHR ''@'' CHR ''|'' ''12|4'') = ''12'' # ''4'' # []"
    by (simp add: replace_def)
  have 2: "py_int ''12'' = Inr 12" by (simp add: int_eval)
  have 3: "py_int ''4'' = Inr 4" by (simp add: int_eval)
  have 4: "split_on CHR '','' (remove CHR '')'' (remove CHR ''('' ''(None,0)''))
             = ''None'' # ''0'' # []"
    by (simp add: remove_def)
  have 5: "literal_eval ext ''None'' = Inr PNone" by (simp add: lit_eval)
  have 6: "literal_eval ext ''0'' = Inr (PInt 0)" by (simp add: lit_eval)
  have 7: "split_on CHR ''|'' (remove CHR '']'' (remove CHR ''['' ''[0|1]'')) = ''0'' # ''1'' # []"
    by (simp add: remove_def)
  have 8: "literal_eval ext ''1'' = Inr (PInt 1)" by (simp add: lit_eval)
  show ?thesis
    unfolding step_signal [OF split_none_line assms(1)]
    by (rule signal_entry_ok [OF 1 2 3 4 5 6 7 6 8 assms(2) assms(3)])
qed

subsection \<open>C1: an \<open>SG_\<close> line while no message is open\<close>

text \<open>
  C1 says that an \<open>SG_\<close> line met while no message is open raises a StructuralError and
  that no Database is returned. The code has no such error: the \<open>SG_\<close> branch is guarded
  by \<open>Flag\<close>, the line falls through to \<open>else: pass\<close>, and the parse goes on. An input
  that is a single \<open>SG_\<close> line returns the empty table.
\<close>

theorem signal_first_counterexample:
  "get_can fragment_only [''SG_ RPM : 15|16 (0.25,0) [0|16383.75] x''] = Inr empty_db"
  by (simp add: get_can_def step_def split_signal_line start_def)

text \<open>
  C1 as amended: while no message is open (\<open>Flag\<close> is false), a line whose first token is
  \<open>SG_\<close> is skipped: the step raises nothing and leaves the table, \<open>Flag\<close> and
  \<open>current_BO\<close> as they were.
\<close>

theorem signal_line_without_open_message:
  assumes "py_split line = ''SG_'' # ts" and "\<not> Flag s"
  shows "step ext s line = Inr s"
  using assms by (simp add: step_def)

theorem signal_line_without_open_message_witness:
  "py_split ''SG_ RPM : 15|16 (0.25,0) [0|16383.75] x'' =
     ''SG_'' # [''RPM'', '':'', ''15|16'', ''(0.25,0)'', ''[0|16383.75]'', ''x'']
   \<and> \<not> Flag start
   \<and> step fragment_only start ''SG_ RPM : 15|16 (0.25,0) [0|16383.75] x'' = Inr start"
  using signal_line_without_open_message
    [of "''SG_ RPM : 15|16 (0.25,0) [0|16383.75] x''"
        "[''RPM'', '':'', ''15|16'', ''(0.25,0)'', ''[0|16383.75]'', ''x'']" start
        fragment_only]
  by (simp add: split_signal_line start_def)

subsection \<open>C2: all or nothing\<close>

text \<open>
  C2 says that the parse returns a complete Database or propagates an error, and never
  a partial Database instead of an error. The code knows no error but the exceptions it
  raises. An \<open>SG_\<close> line met after a blank line, with no message open, raises nothing:
  the parse ends normally and the table it returns has entry 100 without the signal of
  that line.
\<close>

theorem orphan_signal_counterexample:
  "get_can fragment_only
     [''BO_ 100 EngineData: 8 PowertrainECU'', '''', ''SG_ X : 12|4 (1,0) [0|1] d''] =
   Inr (empty_db(100 \<mapsto>
          \<lparr>family = ''PowertrainECU'', genus = ''EngineData'', species = no_species,
           frame_bytes = 8\<rparr>))"
proof -
  have 1: "step fragment_only engine_open '''' =
      Inr (engine_open\<lparr>Flag := False, current_BO := NoneVal\<rparr>)"
    by (rule step_blank [OF split_empty])
  have 2: "step fragment_only (engine_open\<lparr>Flag := False, current_BO := NoneVal\<rparr>)
        ''SG_ X : 12|4 (1,0) [0|1] d'' =
      Inr (engine_open\<lparr>Flag := False, current_BO := NoneVal\<rparr>)"
    by (simp add: step_def split_bar_line)
  have r: "run fragment_only start
        [''BO_ 100 EngineData: 8 PowertrainECU'', '''', ''SG_ X : 12|4 (1,0) [0|1] d''] =
      Inr (engine_open\<lparr>Flag := False, current_BO := NoneVal\<rparr>)"
    by (simp add: step_engine_start 1 2)
  show ?thesis
    unfolding get_can_def r by (simp add: engine_open_def)
qed

text \<open>
  C2 as amended: the parse is all-or-nothing with respect to the exceptions the code
  raises. For every input, either every line is processed, the first from the initial
  state and each other line from the state its predecessor left, and \<open>get_can\<close> returns
  the table of the state left by the last line, whose keys are exactly the arbitration
  IDs of the input's \<open>BO_\<close> lines; or some line raises while all lines before it were
  processed, and \<open>get_can\<close> returns that exception and no table.
\<close>

theorem parse_all_or_nothing:
  "(\<exists>s. get_can ext lines = Inr (can_db s) \<and> run ext start lines = Inr s
       \<and> (\<forall>pre line post. lines = pre @ line # post \<longrightarrow>
             (\<exists>s1 s2. run ext start pre = Inr s1 \<and> step ext s1 line = Inr s2
                 \<and> run ext s2 post = Inr s))
       \<and> dom (can_db s) =
             {k. \<exists>line ts. line \<in> set lines \<and> py_split line = ''BO_'' # ts
                    \<and> and_then (item ts 0) py_int = Inr k})
   \<or> (\<exists>pre line post s1 e. lines = pre @ line # post \<and> run ext start pre = Inr s1
         \<and> step ext s1 line = Inl e \<and> get_can ext lines = Inl e)"
proof (cases "run ext start lines")
  case (Inl e)
  then obtain pre line post s1 where "lines = pre @ line # post" "run ext start pre = Inr s1"
      "step ext s1 line = Inl e"
    using run_first_failure by blast
  moreover have "get_can ext lines = Inl e" using Inl by (simp add: get_can_def)
  ultimately show ?thesis by blast
next
  case (Inr s)
  then have g: "get_can ext lines = Inr (can_db s)" by (simp add: get_can_def)
  have p: "\<forall>pre line post. lines = pre @ line # post \<longrightarrow>
             (\<exists>s1 s2. run ext start pre = Inr s1 \<and> step ext s1 line = Inr s2
                 \<and> run ext s2 post = Inr s)"
    using Inr run_all_processed by blast
  have d: "dom (can_db s) =
             {k. \<exists>line ts. line \<in> set lines \<and> py_split line = ''BO_'' # ts
                    \<and> and_then (item ts 0) py_int = Inr k}"
    using run_dom [OF Inr] by (simp add: start_def empty_db_def)
  show ?thesis using g Inr p d by blast
qed

theorem parse_all_or_nothing_witness:
  "get_can fragment_only [''BO_ 100 EngineData: 8 PowertrainECU'', ''SG_ X''] = Inl IndexError
   \<and> run fragment_only start [''BO_ 100 EngineData: 8 PowertrainECU''] = Inr engine_open
   \<and> step fragment_only engine_open ''SG_ X'' = Inl IndexError
   \<and> (\<exists>pre line post s1 e.
         [''BO_ 100 EngineData: 8 PowertrainECU'', ''SG_ X''] = pre @ line # post
         \<and> run fragment_only start pre = Inr s1 \<and> step fragment_only s1 line = Inl e
         \<and> get_can fragment_only [''BO_ 100 EngineData: 8 PowertrainECU'', ''SG_ X''] = Inl e)
   \<and> get_can fragment_only
         [''BO_ 100 EngineData: 8 PowertrainECU'', ''SG_ X : 12|4 (1,0) [0|1] d''] =
       Inr (empty_db(100 \<mapsto>
              \<lparr>family = ''PowertrainECU'', genus = ''EngineData'',
               species = no_species(''X'' \<mapsto>
                 \<lparr>end_bit = 12, length' = 4, factor = PInt 1, offset = PInt 0,
                  minimum = PInt 0, maximum = PInt 1, description = ''d'', value' = PNone\<rparr>),
               frame_bytes = 8\<rparr>))
   \<and> (\<exists>s s2. get_can fragment_only
                [''BO_ 100 EngineData: 8 PowertrainECU'', ''SG_ X : 12|4 (1,0) [0|1] d''] =
              Inr (can_db s)
         \<and> step fragment_only engine_open ''SG_ X : 12|4 (1,0) [0|1] d'' = Inr s2
         \<and> run fragment_only s2 [] = Inr s
         \<and> dom (can_db s) = {100})"
proof -
  let ?E = "''BO_ 100 EngineData: 8 PowertrainECU''"
  let ?G = "''SG_ X : 12|4 (1,0) [0|1] d''"
  let ?T = "empty_db(100 \<mapsto>
              \<lparr>family = ''PowertrainECU'', genus = ''EngineData'',
               species = no_species(''X'' \<mapsto>
                 \<lparr>end_bit = 12, length' = 4, factor = PInt 1, offset = PInt 0,
                  minimum = PInt 0, maximum = PInt 1, description = ''d'', value' = PNone\<rparr>),
               frame_bytes = 8\<rparr>)"
  have r: "run fragment_only start [?E] = Inr engine_open"
    by (simp add: step_engine_start)
  have e: "step fragment_only engine_open ''SG_ X'' = Inl IndexError"
    unfolding step_signal [OF split_lone_signal engine_open_fields(1)]
    by (simp add: signal_entry_def)
  have gf: "get_can fragment_only [?E, ''SG_ X''] = Inl IndexError"
    by (simp add: get_can_def step_engine_start e)
  have sg: "step fragment_only engine_open ?G =
      Inr \<lparr>can_db = ?T, Flag = True, current_BO = Key 100\<rparr>"
    using step_bit_range [OF split_bar_line _ engine_open_fields]
    by (simp add: replace_def engine_open_def)
  have go: "get_can fragment_only [?E, ?G] = Inr ?T"
    by (simp add: get_can_def step_engine_start sg)
  have a: "\<exists>pre line post s1 e. [?E, ''SG_ X''] = pre @ line # post
         \<and> run fragment_only start pre = Inr s1 \<and> step fragment_only s1 line = Inl e
         \<and> get_can fragment_only [?E, ''SG_ X''] = Inl e"
    using parse_all_or_nothing [of fragment_only "[?E, ''SG_ X'']"] gf by simp
  from parse_all_or_nothing [of fragment_only "[?E, ?G]"] go
  obtain s where s: "get_can fragment_only [?E, ?G] = Inr (can_db s)"
      "\<forall>pre line post. [?E, ?G] = pre @ line # post \<longrightarrow>
         (\<exists>s1 s2. run fragment_only start pre = Inr s1 \<and> step fragment_only s1 line = Inr s2
             \<and> run fragment_only s2 post = Inr s)"
      "dom (can_db s) =
         {k. \<exists>line ts. line \<in> set [?E, ?G] \<and> py_split line = ''BO_'' # ts
                \<and> and_then (item ts 0) py_int = Inr k}"
    by auto
  have "[?E, ?G] = [?E] @ ?G # []" by simp
  with s(2) obtain s1 s2 where t: "run fragment_only start [?E] = Inr s1"
      "step fragment_only s1 ?G = Inr s2" "run fragment_only s2 [] = Inr s"
    by blast
  have s1: "s1 = engine_open" using t(1) r by simp
  have i: "py_int ''100'' = Inr 100" by (simp add: int_eval)
  have "{k. \<exists>line ts. line \<in> set [?E, ?G] \<and> py_split line = ''BO_'' # ts
                \<and> and_then (item ts 0) py_int = Inr k} = {100}"
    by (auto simp: split_engine split_bar_line i)
  then have d: "dom (can_db s) = {100}"
    using s(3) by simp
  have b: "\<exists>s s2. get_can fragment_only [?E, ?G] = Inr (can_db s)
         \<and> step fragment_only engine_open ?G = Inr s2
         \<and> run fragment_only s2 [] = Inr s \<and> dom (can_db s) = {100}"
    using s(1) t(2) t(3) d unfolding s1 by blast
  show ?thesis using gf r e a go b by blast
qed

subsection \<open>C3: which tokens the numeric fields accept\<close>

text \<open>
  C3 says that a factor, offset, minimum or maximum that is not a numeric literal makes
  the parse fail. The code hands these pieces to \<open>ast.literal_eval\<close>, which evaluates any
  Python literal: the factor \<open>None\<close> is accepted and stored.
\<close>

theorem none_factor_counterexample:
  "lookup_signal
     (get_can fragment_only
        [''BO_ 100 EngineData: 8 PowertrainECU'', ''SG_ X : 12|4 (None,0) [0|1] d''])
     100 ''X'' =
   Some \<lparr>end_bit = 12, length' = 4, factor = PNone, offset = PInt 0, minimum = PInt 0,
         maximum = PInt 1, description = ''d'', value' = PNone\<rparr>"
  by (simp add: lookup_signal_def get_can_def step_engine step_none_factor start_def)

text \<open>
  C3 as amended. The arbitration ID and the frame byte count go through \<open>int\<close>: a \<open>BO_\<close>
  line with five tokens fails with ValueError whenever \<open>int\<close> rejects either token, and
  \<open>int\<close> accepts a run of decimal digits, also with a leading minus sign. Factor, offset,
  minimum and maximum go through \<open>ast.literal_eval\<close>: a decimal integer literal, also negated,
  yields an integer; digits with a fractional part, also negated, yield a float of that
  value; and the non-numeric literals \<open>None\<close>, \<open>True\<close> and \<open>False\<close> are accepted too.
\<close>

theorem numeric_fields:
  "(py_split line = ''BO_'' # t1 # t2 # t3 # t4 # rest
      \<and> (py_int t1 = Inl ValueError \<or> py_int t3 = Inl ValueError)
      \<longrightarrow> step ext s line = Inl ValueError)
   \<and> (digit_run ds \<longrightarrow>
        py_int ds = Inr (int (nat_of_digits ds))
        \<and> py_int (CHR ''-'' # ds) = Inr (- int (nat_of_digits ds)))
   \<and> (dec_integer ds \<longrightarrow>
        literal_eval ext ds = Inr (PInt (int (nat_of_digits ds)))
        \<and> literal_eval ext (CHR ''-'' # ds) = Inr (PInt (- int (nat_of_digits ds))))
   \<and> (list_all is_digit ip \<and> digit_run fp \<longrightarrow>
        literal_eval ext (ip @ CHR ''.'' # fp) = Inr (PFloat (float_val ip fp))
        \<and> literal_eval ext (CHR ''-'' # ip @ CHR ''.'' # fp) = Inr (PFloat (- float_val ip fp)))
   \<and> literal_eval ext ''None'' = Inr PNone
   \<and> literal_eval ext ''True'' = Inr (PBool True)
   \<and> literal_eval ext ''False'' = Inr (PBool False)"
proof -
  have a: "step ext s line = Inl ValueError"
    if "py_split line = ''BO_'' # t1 # t2 # t3 # t4 # rest"
      and "py_int t1 = Inl ValueError \<or> py_int t3 = Inl ValueError"
    using step_message [OF that(1)] message_start_bad_int [OF that(2)] by simp
  have b: "literal_eval ext ''None'' = Inr PNone" "literal_eval ext ''True'' = Inr (PBool True)"
      "literal_eval ext ''False'' = Inr (PBool False)"
    by (simp_all add: literal_eval_def)
  show ?thesis
    using a b py_int_digits [of ds] literal_eval_integer [of ds]
      literal_eval_point_float [of ip fp]
    by blast
qed

theorem numeric_fields_witness:
  "py_split ''BO_ x1 EngineData: 8 PowertrainECU'' =
       ''BO_'' # ''x1'' # ''EngineData:'' # ''8'' # ''PowertrainECU'' # []
   \<and> py_int ''x1'' = Inl ValueError
   \<and> step fragment_only start ''BO_ x1 EngineData: 8 PowertrainECU'' = Inl ValueError
   \<and> digit_run ''40'' \<and> dec_integer ''40''
   \<and> py_int ''40'' = Inr 40 \<and> py_int ''-40'' = Inr (- 40)
   \<and> literal_eval fragment_only ''40'' = Inr (PInt 40)
   \<and> literal_eval fragment_only ''-40'' = Inr (PInt (- 40))
   \<and> list_all is_digit ''0'' \<and> digit_run ''25''
   \<and> literal_eval fragment_only ''0.25'' = Inr (PFloat (1 / 4))
   \<and> literal_eval fragment_only ''-0.25'' = Inr (PFloat (- (1 / 4)))"
proof -
  have 1: "py_int ''x1'' = Inl ValueError" by (simp add: int_eval)
  have 2: "digit_run ''40''" "dec_integer ''40''" "list_all is_digit ''0''" "digit_run ''25''"
    by (simp_all add: digit_run_def dec_integer_def is_digit_def)
  have 3: "int (nat_of_digits ''40'') = 40" "float_val ''0'' ''25'' = 1 / 4"
    by (simp_all add: nat_of_digits_def digit_val_def float_val_def)
  show ?thesis
    using numeric_fields [of "''BO_ x1 EngineData: 8 PowertrainECU''" "''x1''"
        "''EngineData:''" "''8''" "''PowertrainECU''" "[]" fragment_only start "''40''" "''0''"
        "''25''"]
      split_bad_id_line 1 2 3
    by simp
qed

subsection \<open>C4: a \<open>BO_\<close> line writes one entry and replaces an earlier one\<close>

text \<open>
  C4: a processed \<open>BO_\<close> line stores exactly one entry, under the integer value of its
  second token; every other key keeps its entry. Whatever was stored under that key
  before, with all its signals, is replaced: family, genus and frame_bytes come from
  this line and the signal mapping of the entry is empty. The line becomes the open
  message. The instance after the theorem starts from a table whose entry 100 has a
  signal.
\<close>

theorem message_start_replaces_entry:
  assumes "py_split line = ''BO_'' # ts" and "step ext s line = Inr s'"
  shows "\<exists>t1 t2 t3 t4 rest k n. ts = t1 # t2 # t3 # t4 # rest
      \<and> py_int t1 = Inr k \<and> py_int t3 = Inr n
      \<and> can_db s' = (can_db s)(k \<mapsto>
            \<lparr>family = t4, genus = butlast t2, species = no_species, frame_bytes = n\<rparr>)
      \<and> dom (can_db s') = insert k (dom (can_db s))
      \<and> (\<forall>j. j \<noteq> k \<longrightarrow> can_db s' j = can_db s j)
      \<and> Flag s' \<and> current_BO s' = Key k"
proof -
  obtain t1 t2 t3 t4 rest k n where h: "ts = t1 # t2 # t3 # t4 # rest"
    "py_int t1 = Inr k" "py_int t3 = Inr n"
    "s' = s\<lparr>can_db := (can_db s)(k \<mapsto>
              \<lparr>family = t4, genus = butlast t2, species = no_species, frame_bytes = n\<rparr>),
            Flag := True, current_BO := Key k\<rparr>"
    using assms by (rule message_start_processed)
  have db: "can_db s' = (can_db s)(k \<mapsto>
            \<lparr>family = t4, genus = butlast t2, species = no_species, frame_bytes = n\<rparr>)"
    unfolding h(4) by simp
  have d: "dom (can_db s') = insert k (dom (can_db s))" unfolding db by simp
  have o: "\<forall>j. j \<noteq> k \<longrightarrow> can_db s' j = can_db s j" unfolding db by simp
  have f: "Flag s' \<and> current_BO s' = Key k" unfolding h(4) by simp
  show ?thesis using h(1) h(2) h(3) db d o f by blast
qed

theorem message_start_replaces_entry_witness:
  "py_split ''BO_ 100 BrakeData: 4 ChassisECU'' =
       ''BO_'' # [''100'', ''BrakeData:'', ''4'', ''ChassisECU'']
   \<and> step fragment_only engine_with_rpm ''BO_ 100 BrakeData: 4 ChassisECU'' =
       Inr \<lparr>can_db = empty_db(100 \<mapsto> \<lparr>family = ''ChassisECU'', genus = ''BrakeData'',
                 species = no_species, frame_bytes = 4\<rparr>),
             Flag = True, current_BO = Key 100\<rparr>
   \<and> dom (empty_db(100 \<mapsto> \<lparr>family = ''ChassisECU'', genus = ''BrakeData'',
                 species = no_species, frame_bytes = 4\<rparr>)) = {100}"
proof -
  let ?s' = "\<lparr>can_db = empty_db(100 \<mapsto> \<lparr>family = ''ChassisECU'', genus = ''BrakeData'',
                 species = no_species, frame_bytes = 4\<rparr>),
             Flag = True, current_BO = Key 100\<rparr>"
  have a: "py_split ''BO_ 100 BrakeData: 4 ChassisECU'' =
       ''BO_'' # [''100'', ''BrakeData:'', ''4'', ''ChassisECU'']"
    by (simp add: split_reuse_line)
  have i: "py_int ''100'' = Inr 100" "py_int ''4'' = Inr 4" by (simp_all add: int_eval)
  have b: "step fragment_only engine_with_rpm ''BO_ 100 BrakeData: 4 ChassisECU'' = Inr ?s'"
    unfolding step_message [OF a]
    by (simp add: message_start_ok [OF i] engine_with_rpm_def)
  obtain k where h: "py_int ''100'' = Inr k"
      "dom (can_db ?s') = insert k (dom (can_db engine_with_rpm))"
    using message_start_replaces_entry [OF a b] by auto
  have "k = 100" using h(1) i(1) by simp
  then have "dom (empty_db(100 \<mapsto> \<lparr>family = ''ChassisECU'', genus = ''BrakeData'',
                 species = no_species, frame_bytes = 4\<rparr>)) = {100}"
    using h(2) by (simp add: empty_db_def engine_with_rpm_def)
  then show ?thesis using a b by blast
qed

subsection \<open>C5: the bit range\<close>

text \<open>
  C5: when an \<open>SG_\<close> line is processed under an open message and its fourth token is
  \<open>e\<close>, then \<open>@\<close> or \<open>|\<close>, then \<open>l\<close>, where \<open>int\<close> accepts \<open>e\<close> and \<open>l\<close>, the signal stored under
  the line's name has \<open>end_bit = int(e)\<close> and \<open>length = int(l)\<close>. The instance after it runs the tokens
  \<open>12@4\<close> and \<open>12|4\<close>: both give the same signal, with end_bit 12 and length 4.
\<close>

theorem bit_range_separators:
  assumes "py_split line = ''SG_'' # name # t2 # (e_tok @ sep # l_tok) # rest"
      and "Flag s" and "sep = CHR ''@'' \<or> sep = CHR ''|''"
      and "py_int e_tok = Inr e" and "py_int l_tok = Inr l"
      and "step ext s line = Inr s'"
  shows "\<exists>k m sg. current_BO s = Key k \<and> can_db s' k = Some m
           \<and> species m name = Some sg \<and> end_bit sg = e \<and> length' sg = l"
proof -
  let ?la = "''SG_'' # name # t2 # (e_tok @ sep # l_tok) # rest"
  have "signal_entry ext s ?la = Inr s'"
    using step_signal [OF assms(1) assms(2)] assms(6) by simp
  then obtain k m name' t3 t4 t5 e' l' f off mn mx d where h:
      "open_message s = Inr (k, m)" "item ?la 1 = Inr name'" "item ?la 3 = Inr t3"
      "and_then (item (split_on CHR ''|'' (replace CHR ''@'' CHR ''|'' t3)) 0) py_int = Inr e'"
      "and_then (item (split_on CHR ''|'' (replace CHR ''@'' CHR ''|'' t3)) 1) py_int = Inr l'"
      "s' = s\<lparr>can_db := (can_db s)(k \<mapsto> m\<lparr>species := (species m)(name' \<mapsto>
              \<lparr>end_bit = e', length' = l', factor = f, offset = off,
               minimum = mn, maximum = mx, description = d,
               value' = PNone\<rparr>)\<rparr>)\<rparr>"
    by (rule signal_entry_InrE)
  have n: "name' = name" using h(2) by simp
  have t3: "t3 = e_tok @ sep # l_tok" using h(3) by simp
  have sp: "split_on CHR ''|'' (replace CHR ''@'' CHR ''|'' t3) = [e_tok, l_tok]"
    unfolding t3 using assms(4) assms(5) assms(3) by (rule bit_range_split)
  have e: "e' = e" using h(4) assms(4) unfolding sp by simp
  have l: "l' = l" using h(5) assms(5) unfolding sp by simp
  have k: "current_BO s = Key k" using h(1) by (simp add: open_message_Inr)
  show ?thesis using k h(6) n e l by simp
qed

theorem bit_range_separators_witness:
  "py_split ''SG_ X : 12@4 (1,0) [0|1] d'' =
       ''SG_'' # ''X'' # '':'' # (''12'' @ CHR ''@'' # ''4'') # [''(1,0)'', ''[0|1]'', ''d'']
   \<and> py_split ''SG_ X : 12|4 (1,0) [0|1] d'' =
       ''SG_'' # ''X'' # '':'' # (''12'' @ CHR ''|'' # ''4'') # [''(1,0)'', ''[0|1]'', ''d'']
   \<and> Flag engine_open \<and> py_int ''12'' = Inr 12 \<and> py_int ''4'' = Inr 4
   \<and> step fragment_only engine_open ''SG_ X : 12@4 (1,0) [0|1] d'' =
       Inr \<lparr>can_db = empty_db(100 \<mapsto>
            \<lparr>family = ''PowertrainECU'', genus = ''EngineData'',
             species = no_species(''X'' \<mapsto>
               \<lparr>end_bit = 12, length' = 4, factor = PInt 1, offset = PInt 0,
                minimum = PInt 0, maximum = PInt 1, description = ''d'', value' = PNone\<rparr>),
             frame_bytes = 8\<rparr>),
          Flag = True, current_BO = Key 100\<rparr>
   \<and> step fragment_only engine_open ''SG_ X : 12|4 (1,0) [0|1] d'' =
       Inr \<lparr>can_db = empty_db(100 \<mapsto>
            \<lparr>family = ''PowertrainECU'', genus = ''EngineData'',
             species = no_species(''X'' \<mapsto>
               \<lparr>end_bit = 12, length' = 4, factor = PInt 1, offset = PInt 0,
                minimum = PInt 0, maximum = PInt 1, description = ''d'', value' = PNone\<rparr>),
             frame_bytes = 8\<rparr>),
          Flag = True, current_BO = Key 100\<rparr>
   \<and> (\<exists>k m sg. current_BO engine_open = Key k
           \<and> can_db \<lparr>can_db = empty_db(100 \<mapsto>
            \<lparr>family = ''PowertrainECU'', genus = ''EngineData'',
             species = no_species(''X'' \<mapsto>
               \<lparr>end_bit = 12, length' = 4, factor = PInt 1, offset = PInt 0,
                minimum = PInt 0, maximum = PInt 1, description = ''d'', value' = PNone\<rparr>),
             frame_bytes = 8\<rparr>),
          Flag = True, current_BO = Key 100\<rparr> k = Some m
           \<and> species m ''X'' = Some sg \<and> end_bit sg = 12 \<and> length' sg = 4)"
proof -
  let ?s1 = "\<lparr>can_db = empty_db(100 \<mapsto>
            \<lparr>family = ''PowertrainECU'', genus = ''EngineData'',
             species = no_species(''X'' \<mapsto>
               \<lparr>end_bit = 12, length' = 4, factor = PInt 1, offset = PInt 0,
                minimum = PInt 0, maximum = PInt 1, description = ''d'', value' = PNone\<rparr>),
             frame_bytes = 8\<rparr>),
          Flag = True, current_BO = Key 100\<rparr>"
  have a1: "py_split ''SG_ X : 12@4 (1,0) [0|1] d'' =
       ''SG_'' # ''X'' # '':'' # (''12'' @ CHR ''@'' # ''4'') # [''(1,0)'', ''[0|1]'', ''d'']"
    by (simp add: split_at_line)
  have a2: "py_split ''SG_ X : 12|4 (1,0) [0|1] d'' =
       ''SG_'' # ''X'' # '':'' # (''12'' @ CHR ''|'' # ''4'') # [''(1,0)'', ''[0|1]'', ''d'']"
    by (simp add: split_bar_line)
  note f = engine_open_fields(1) and c = engine_open_fields(2) and d = engine_open_fields(3)
  have i: "py_int ''12'' = Inr 12" "py_int ''4'' = Inr 4" by (simp_all add: int_eval)
  have b1: "step fragment_only engine_open ''SG_ X : 12@4 (1,0) [0|1] d'' = Inr ?s1"
    using step_bit_range [OF split_at_line _ f c d]
    by (simp add: replace_def engine_open_def)
  have b2: "step fragment_only engine_open ''SG_ X : 12|4 (1,0) [0|1] d'' = Inr ?s1"
    using step_bit_range [OF split_bar_line _ f c d]
    by (simp add: replace_def engine_open_def)
  have "\<exists>k m sg. current_BO engine_open = Key k \<and> can_db ?s1 k = Some m
           \<and> species m ''X'' = Some sg \<and> end_bit sg = 12 \<and> length' sg = 4"
    using bit_range_separators [OF a1 f _ i b1] by simp
  moreover have "\<exists>k m sg. current_BO engine_open = Key k \<and> can_db ?s1 k = Some m
           \<and> species m ''X'' = Some sg \<and> end_bit sg = 12 \<and> length' sg = 4"
    using bit_range_separators [OF a2 f _ i b2] by simp
  ultimately show ?thesis using a1 a2 f i b1 b2 by blast
qed

subsection \<open>C6: the end-to-end scenario\<close>

text \<open>
  C6: the scenario input (a \<open>BO_ 100\<close> line with the signals RPM and Temp, a blank line, a
  \<open>BO_ 200\<close> line with the signal Pressure) parses to a table with exactly the keys 100
  and 200; entry 100 has exactly the signals RPM and Temp, with RPM.length = 16,
  RPM.factor the float 0.25 and Temp.offset the integer -40; entry 200 has exactly the
  signal Pressure, with length 16 and factor the float 0.1.
\<close>

theorem end_to_end_scenario:
  "\<exists>db m100 m200 rpm temp pressure.
     get_can ext
       [''BO_ 100 EngineData: 8 PowertrainECU'',
        '' SG_ RPM : 15|16 (0.25,0) [0|16383.75] \"engine speed\"'',
        '' SG_ Temp : 7|8 (1,-40) [-40|215] \"coolant temp\"'',
        '''',
        ''BO_ 200 BrakeData: 4 ChassisECU'',
        '' SG_ Pressure : 31|16 (0.1,0) [0|6553.5] \"brake pressure\"''] = Inr db
     \<and> dom db = {100, 200}
     \<and> db 100 = Some m100 \<and> dom (species m100) = {''RPM'', ''Temp''}
     \<and> species m100 ''RPM'' = Some rpm \<and> length' rpm = 16 \<and> factor rpm = PFloat (1 / 4)
     \<and> species m100 ''Temp'' = Some temp \<and> offset temp = PInt (- 40)
     \<and> db 200 = Some m200 \<and> dom (species m200) = {''Pressure''}
     \<and> species m200 ''Pressure'' = Some pressure \<and> length' pressure = 16
     \<and> factor pressure = PFloat (1 / 10)"
  unfolding get_can_def scenario_run
  by (auto simp add: empty_db_def no_species_def)

subsection \<open>C7: blank and unrecognised lines\<close>

text \<open>
  C7: a blank line (one with no token) clears the open-message state, \<open>Flag\<close> to false and
  \<open>current_BO\<close> to \<open>None\<close>, and leaves the table unchanged; a line with a first token that
  is neither \<open>BO_\<close> nor, while a message is open, \<open>SG_\<close> changes nothing at all.
\<close>

theorem irrelevant_line:
  "(py_split line = [] \<longrightarrow>
      (\<exists>s'. step ext s line = Inr s' \<and> can_db s' = can_db s \<and> \<not> Flag s'
            \<and> current_BO s' = NoneVal))
   \<and> (py_split line \<noteq> [] \<and> hd (py_split line) \<noteq> ''BO_''
        \<and> \<not> (Flag s \<and> hd (py_split line) = ''SG_'') \<longrightarrow> step ext s line = Inr s)"
  by (cases "py_split line") (auto simp: step_def Let_def)

theorem irrelevant_line_witness:
  "py_split '' '' = []
   \<and> step fragment_only start '' '' = Inr (start\<lparr>Flag := False, current_BO := NoneVal\<rparr>)
   \<and> py_split ''VERSION x'' \<noteq> [] \<and> hd (py_split ''VERSION x'') \<noteq> ''BO_''
   \<and> \<not> (Flag start \<and> hd (py_split ''VERSION x'') = ''SG_'')
   \<and> step fragment_only start ''VERSION x'' = Inr start"
  using irrelevant_line [of "'' ''" fragment_only start]
    irrelevant_line [of "''VERSION x''" fragment_only start]
  by (auto simp add: split_blank_line split_version_line start_def)

subsection \<open>C8: the factor/offset token \<open>(0.1,-40)\<close>\<close>

text \<open>
  C8: when an \<open>SG_\<close> line whose fifth token is \<open>(0.1,-40)\<close> is processed under an open
  message, the stored signal has factor the float 0.1 and offset the integer -40.
\<close>

theorem factor_offset_example:
  assumes "py_split line = ''SG_'' # name # t2 # t3 # ''(0.1,-40)'' # rest"
      and "Flag s" and "step ext s line = Inr s'"
  shows "\<exists>k m sg. current_BO s = Key k \<and> can_db s' k = Some m
           \<and> species m name = Some sg \<and> factor sg = PFloat (1 / 10) \<and> offset sg = PInt (- 40)"
proof -
  let ?la = "''SG_'' # name # t2 # t3 # ''(0.1,-40)'' # rest"
  have "signal_entry ext s ?la = Inr s'"
    using step_signal [OF assms(1) assms(2)] assms(3) by simp
  then obtain k m name' t3' t4 t5 e l f off mn mx d where h:
      "open_message s = Inr (k, m)" "item ?la 1 = Inr name'" "item ?la 3 = Inr t3'"
      "item ?la 4 = Inr t4" "item ?la 5 = Inr t5" "item ?la 6 = Inr d"
      "and_then (item (split_on CHR ''|'' (replace CHR ''@'' CHR ''|'' t3')) 0) py_int = Inr e"
      "and_then (item (split_on CHR ''|'' (replace CHR ''@'' CHR ''|'' t3')) 1) py_int = Inr l"
      "and_then (item (split_on CHR '','' (remove CHR '')'' (remove CHR ''('' t4))) 0)
            (literal_eval ext) = Inr f"
      "and_then (item (split_on CHR '','' (remove CHR '')'' (remove CHR ''('' t4))) 1)
            (literal_eval ext) = Inr off"
      "and_then (item (split_on CHR ''|'' (remove CHR '']'' (remove CHR ''['' t5))) 0)
            (literal_eval ext) = Inr mn"
      "and_then (item (split_on CHR ''|'' (remove CHR '']'' (remove CHR ''['' t5))) 1)
            (literal_eval ext) = Inr mx"
      "s' = s\<lparr>can_db := (can_db s)(k \<mapsto> m\<lparr>species := (species m)(name' \<mapsto>
              \<lparr>end_bit = e, length' = l, factor = f, offset = off,
               minimum = mn, maximum = mx, description = d,
               value' = PNone\<rparr>)\<rparr>)\<rparr>"
    by (rule signal_entry_InrE)
  have n: "name' = name" using h(2) by simp
  have t4: "t4 = ''(0.1,-40)''" using h(4) by simp
  have sp: "split_on CHR '','' (remove CHR '')'' (remove CHR ''('' t4)) = [''0.1'', ''-40'']"
    unfolding t4 by (simp add: remove_def)
  have f: "f = PFloat (1 / 10)" using h(9) unfolding sp by (simp add: lit_eval)
  have off: "off = PInt (- 40)" using h(10) unfolding sp by (simp add: lit_eval)
  have k: "current_BO s = Key k" using h(1) by (simp add: open_message_Inr)
  show ?thesis using k h(13) n f off by simp
qed

theorem factor_offset_example_witness:
  "py_split ''SG_ T : 7|8 (0.1,-40) [-40|215] d'' =
       ''SG_'' # ''T'' # '':'' # ''7|8'' # ''(0.1,-40)'' # [''[-40|215]'', ''d'']
   \<and> Flag engine_open
   \<and> step fragment_only engine_open ''SG_ T : 7|8 (0.1,-40) [-40|215] d'' =
       Inr \<lparr>can_db = empty_db(100 \<mapsto>
            \<lparr>family = ''PowertrainECU'', genus = ''EngineData'',
             species = no_species(''T'' \<mapsto>
               \<lparr>end_bit = 7, length' = 8, factor = PFloat (1 / 10), offset = PInt (- 40),
                minimum = PInt (- 40), maximum = PInt 215, description = ''d'',
                value' = PNone\<rparr>),
             frame_bytes = 8\<rparr>),
          Flag = True, current_BO = Key 100\<rparr>
   \<and> (\<exists>k m sg. current_BO engine_open = Key k
           \<and> can_db \<lparr>can_db = empty_db(100 \<mapsto>
            \<lparr>family = ''PowertrainECU'', genus = ''EngineData'',
             species = no_species(''T'' \<mapsto>
               \<lparr>end_bit = 7, length' = 8, factor = PFloat (1 / 10), offset = PInt (- 40),
                minimum = PInt (- 40), maximum = PInt 215, description = ''d'',
                value' = PNone\<rparr>),
             frame_bytes = 8\<rparr>),
          Flag = True, current_BO = Key 100\<rparr> k = Some m
           \<and> species m ''T'' = Some sg \<and> factor sg = PFloat (1 / 10)
           \<and> offset sg = PInt (- 40))"
proof -
  have a: "py_split ''SG_ T : 7|8 (0.1,-40) [-40|215] d'' =
       ''SG_'' # ''T'' # '':'' # ''7|8'' # ''(0.1,-40)'' # [''[-40|215]'', ''d'']"
    by (simp add: split_scaled_line)
  note f = engine_open_fields(1) and c = engine_open_fields(2) and d = engine_open_fields(3)
  have b: "step fragment_only engine_open ''SG_ T : 7|8 (0.1,-40) [-40|215] d'' =
       Inr \<lparr>can_db = empty_db(100 \<mapsto>
            \<lparr>family = ''PowertrainECU'', genus = ''EngineData'',
             species = no_species(''T'' \<mapsto>
               \<lparr>end_bit = 7, length' = 8, factor = PFloat (1 / 10), offset = PInt (- 40),
                minimum = PInt (- 40), maximum = PInt 215, description = ''d'',
                value' = PNone\<rparr>),
             frame_bytes = 8\<rparr>),
          Flag = True, current_BO = Key 100\<rparr>"
    using step_scaled [OF f c d] by (simp add: engine_open_def)
  show ?thesis using a f b factor_offset_example [OF a f b] by blast
qed

subsection \<open>C9: the fields of a \<open>BO_\<close> line\<close>

text \<open>
  C9: a line whose first token is \<open>BO_\<close> is processed exactly when it has at least five
  tokens and \<open>int\<close> accepts tokens 2 and 4. The entry it stores is keyed by the integer
  value of token 2; its genus is token 3 without its last character, its frame_bytes the
  integer value of token 4, its family token 5, and its signal mapping is empty.
\<close>

theorem message_start_fields:
  assumes "py_split line = ''BO_'' # ts"
  shows "step ext s line = Inr s' \<longleftrightarrow>
     (\<exists>t1 t2 t3 t4 rest k n. ts = t1 # t2 # t3 # t4 # rest
        \<and> py_int t1 = Inr k \<and> py_int t3 = Inr n
        \<and> s' = s\<lparr>can_db := (can_db s)(k \<mapsto>
              \<lparr>family = t4, genus = butlast t2, species = no_species, frame_bytes = n\<rparr>),
            Flag := True, current_BO := Key k\<rparr>)"
proof
  assume "step ext s line = Inr s'"
  with assms obtain t1 t2 t3 t4 rest k n where h: "ts = t1 # t2 # t3 # t4 # rest"
    "py_int t1 = Inr k" "py_int t3 = Inr n"
    "s' = s\<lparr>can_db := (can_db s)(k \<mapsto>
              \<lparr>family = t4, genus = butlast t2, species = no_species, frame_bytes = n\<rparr>),
            Flag := True, current_BO := Key k\<rparr>"
    by (rule message_start_processed)
  show "\<exists>t1 t2 t3 t4 rest k n. ts = t1 # t2 # t3 # t4 # rest
        \<and> py_int t1 = Inr k \<and> py_int t3 = Inr n
        \<and> s' = s\<lparr>can_db := (can_db s)(k \<mapsto>
              \<lparr>family = t4, genus = butlast t2, species = no_species, frame_bytes = n\<rparr>),
            Flag := True, current_BO := Key k\<rparr>"
    by (intro exI conjI) (rule h(1), rule h(2), rule h(3), rule h(4))
next
  assume "\<exists>t1 t2 t3 t4 rest k n. ts = t1 # t2 # t3 # t4 # rest
        \<and> py_int t1 = Inr k \<and> py_int t3 = Inr n
        \<and> s' = s\<lparr>can_db := (can_db s)(k \<mapsto>
              \<lparr>family = t4, genus = butlast t2, species = no_species, frame_bytes = n\<rparr>),
            Flag := True, current_BO := Key k\<rparr>"
  then obtain t1 t2 t3 t4 rest k n where h: "ts = t1 # t2 # t3 # t4 # rest"
      "py_int t1 = Inr k" "py_int t3 = Inr n"
      "s' = s\<lparr>can_db := (can_db s)(k \<mapsto>
              \<lparr>family = t4, genus = butlast t2, species = no_species, frame_bytes = n\<rparr>),
            Flag := True, current_BO := Key k\<rparr>"
    by blast
  have "step ext s line = message_start s (''BO_'' # t1 # t2 # t3 # t4 # rest)"
    using step_message [OF assms] h(1) by simp
  then show "step ext s line = Inr s'"
    using message_start_ok [OF h(2) h(3)] h(4) by simp
qed

theorem message_start_fields_witness:
  "py_split ''BO_ 100 EngineData: 8 PowertrainECU'' =
       ''BO_'' # [''100'', ''EngineData:'', ''8'', ''PowertrainECU'']
   \<and> step fragment_only start ''BO_ 100 EngineData: 8 PowertrainECU'' =
       Inr \<lparr>can_db = empty_db(100 \<mapsto>
              \<lparr>family = ''PowertrainECU'', genus = ''EngineData'', species = no_species,
               frame_bytes = 8\<rparr>),
            Flag = True, current_BO = Key 100\<rparr>"
proof -
  have a: "py_split ''BO_ 100 EngineData: 8 PowertrainECU'' =
       ''BO_'' # [''100'', ''EngineData:'', ''8'', ''PowertrainECU'']"
    by (simp add: split_engine)
  have i: "py_int ''100'' = Inr 100" "py_int ''8'' = Inr 8" by (simp_all add: int_eval)
  have "step fragment_only start ''BO_ 100 EngineData: 8 PowertrainECU'' =
       Inr \<lparr>can_db = empty_db(100 \<mapsto>
              \<lparr>family = ''PowertrainECU'', genus = ''EngineData'', species = no_species,
               frame_bytes = 8\<rparr>),
            Flag = True, current_BO = Key 100\<rparr>"
    unfolding message_start_fields [OF a] using i by (simp add: start_def)
  then show ?thesis using a by blast
qed

subsection \<open>C10: the open message is in the table\<close>

text \<open>
  C10: in every state reached by processing a prefix of the input, if \<open>Flag\<close> is set then
  \<open>current_BO\<close> is an integer that is a key of \<open>can_db\<close>. So the next line, whatever it is,
  raises neither KeyError nor UnboundLocalError: \<open>can_db[current_BO]\<close> in the \<open>SG_\<close> branch
  always finds its entry.
\<close>

theorem open_message_is_present:
  assumes "run ext start pre = Inr s"
  shows "(if Flag s then \<exists>k m. current_BO s = Key k \<and> can_db s k = Some m else True)
     \<and> step ext s line \<noteq> Inl KeyError \<and> step ext s line \<noteq> Inl UnboundLocalError"
proof -
  have ok: "open_ok s" using assms open_ok_start open_ok_run by blast
  have a: "if Flag s then \<exists>k m. current_BO s = Key k \<and> can_db s k = Some m else True"
    using ok by (auto simp: open_ok_def split: bo.splits)
  have b: "step ext s line \<noteq> Inl KeyError \<and> step ext s line \<noteq> Inl UnboundLocalError"
  proof (cases rule: step_cases[of line ext s])
    case blank
    then show ?thesis by simp
  next
    case (signal ts)
    obtain km where "open_message s = Inr km"
      using ok open_ok_message signal(2) by (cases "open_message s") auto
    show ?thesis
    proof (cases "step ext s line")
      case (Inl e)
      then have "e \<noteq> KeyError \<and> e \<noteq> UnboundLocalError"
        using signal \<open>open_message s = Inr km\<close> signal_entry_Inl by metis
      then show ?thesis using Inl by auto
    next
      case (Inr s2)
      then show ?thesis by simp
    qed
  next
    case (message ts)
    show ?thesis
    proof (cases "step ext s line")
      case (Inl e)
      then have "e = IndexError \<or> e = ValueError"
        using message message_start_Inl by metis
      then show ?thesis using Inl by auto
    next
      case (Inr s2)
      then show ?thesis by simp
    qed
  next
    case other
    then show ?thesis by simp
  qed
  show ?thesis using a b by simp
qed

theorem open_message_is_present_witness:
  "run fragment_only start [''BO_ 100 EngineData: 8 PowertrainECU''] = Inr engine_open
   \<and> Flag engine_open
   \<and> (\<exists>k m. current_BO engine_open = Key k \<and> can_db engine_open k = Some m)
   \<and> step fragment_only engine_open ''SG_ X'' = Inl IndexError
   \<and> step fragment_only engine_open ''SG_ X'' \<noteq> Inl KeyError
   \<and> step fragment_only engine_open ''SG_ X'' \<noteq> Inl UnboundLocalError"
proof -
  have r: "run fragment_only start [''BO_ 100 EngineData: 8 PowertrainECU''] = Inr engine_open"
    by (simp add: step_engine_start)
  note f = engine_open_fields(1)
  have e: "step fragment_only engine_open ''SG_ X'' = Inl IndexError"
    unfolding step_signal [OF split_lone_signal f] by (simp add: signal_entry_def)
  show ?thesis using r f e open_message_is_present [OF r, of "''SG_ X''"] by simp
qed

end
